theory Spec2Isabelle
  imports Main
begin

section \<open>Go integer arithmetic\<close>

text \<open>
  The program computes on \<open>int64\<close> (and on \<open>int\<close>, 64 bits wide on the platforms the
  program targets). The values are modelled as \<open>int\<close>. Go's \<open>/\<close> and \<open>%\<close> truncate
  towards zero; they are written out as \<open>go_div\<close> and \<open>go_mod\<close>. The only operation of the
  program whose result can leave the \<open>int64\<close> range is \<open>currentPos++\<close> after the state file
  has been parsed; the wrap-around is written out there with \<open>wrap64\<close>.
\<close>

definition go_div :: "int \<Rightarrow> int \<Rightarrow> int" where
  "go_div a b = sgn a * sgn b * (\<bar>a\<bar> div \<bar>b\<bar>)"

definition go_mod :: "int \<Rightarrow> int \<Rightarrow> int" where
  "go_mod a b = a - go_div a b * b"

definition wrap64 :: "int \<Rightarrow> int" where
  "wrap64 x = (x + 2 ^ 63) mod 2 ^ 64 - 2 ^ 63"

section \<open>Constants and package-level variables\<close>

definition entriesPerFile :: int where
  "entriesPerFile = 2000000"

definition batchSize :: int where
  "batchSize = 250000"

definition maxLength :: nat where
  "maxLength = 4"

definition commitEvery :: int where
  "commitEvery = 20"

definition charset :: string where
  "charset = ''abcdefghijklmnopqrstuvwxyzABCDEFGHIJKLMNOPQRSTUVWXYZ0123456789_.''"

definition N :: int where
  "N = int (length charset)"

text \<open>
  The mutable package-level variables \<open>pow\<close>, \<open>cum\<close> (arrays of six \<open>int64\<close>) and
  \<open>total\<close>. The field for \<open>total\<close> is named \<open>total_n\<close>.
\<close>

record globals =
  pow :: "int list"
  cum :: "int list"
  total_n :: int

definition globals0 :: globals where
  "globals0 = \<lparr>pow = [1, 1, 1, 1, 1, 1], cum = [0, 0, 0, 0, 0, 0], total_n = 0\<rparr>"

section \<open>initTotals\<close>

text \<open>
  The loop \<open>for l := 1; l <= maxLength; l++\<close> with the local \<open>p\<close>. The indices \<open>l\<close> and
  \<open>l - 1\<close> stay within the six cells of the arrays, since \<open>maxLength = 4\<close>.
\<close>

function initTotals_loop :: "nat \<Rightarrow> int \<Rightarrow> globals \<Rightarrow> globals" where
  "initTotals_loop l p g =
     (if l \<le> maxLength then
        let p' = p * N;
            g1 = g\<lparr>pow := (pow g)[l := p']\<rparr>;
            g2 = g1\<lparr>cum := (cum g1)[l := cum g1 ! (l - 1) + p']\<rparr>
        in initTotals_loop (l + 1) p' g2
      else g)"
  by pat_completeness auto
termination
  by (relation "measure (\<lambda>(l, p, g). Suc maxLength - l)") auto

definition initTotals :: "globals \<Rightarrow> globals" where
  "initTotals g = (let g' = initTotals_loop 1 1 g in g'\<lparr>total_n := cum g' ! maxLength\<rparr>)"

section \<open>getCombo\<close>

text \<open>
  A Go run-time panic is a value of \<open>error\<close>: an index out of range (in \<open>getCombo\<close>), and
  \<open>panic(err)\<close> after a failed \<open>os.Create\<close> (in \<open>main\<close>).
\<close>

datatype error = IndexOutOfRange | CreateFailed

text \<open>
  The first loop of \<open>getCombo\<close>: the least \<open>l\<close> from the given one up to \<open>maxLength\<close>
  with \<open>pos < cum[l]\<close>; \<open>L\<close> keeps its zero value when there is none.
\<close>

function getCombo_length :: "globals \<Rightarrow> int \<Rightarrow> nat \<Rightarrow> nat" where
  "getCombo_length g pos l =
     (if l \<le> maxLength then
        (if pos < cum g ! l then l else getCombo_length g pos (l + 1))
      else 0)"
  by pat_completeness auto
termination
  by (relation "measure (\<lambda>(g, pos, l). Suc maxLength - l)") auto

text \<open>
  The second loop, \<open>for j := L - 1; j >= 0; j--\<close>: \<open>getCombo_fill (Suc j) offset s\<close> is
  the loop at index \<open>j\<close>. Indexing \<open>charset\<close> outside its range panics; the remainder
  \<open>offset % N\<close> is negative for a negative offset that is no multiple of \<open>N\<close>.
\<close>

fun getCombo_fill :: "nat \<Rightarrow> int \<Rightarrow> string \<Rightarrow> error + string" where
  "getCombo_fill 0 offset s = Inr s"
| "getCombo_fill (Suc j) offset s =
     (let d = go_mod offset N in
      if 0 \<le> d \<and> d < int (length charset)
      then getCombo_fill j (go_div offset N) (s[j := charset ! nat d])
      else Inl IndexOutOfRange)"

text \<open>
  With \<open>L = 0\<close> the read \<open>cum[L-1]\<close> is \<open>cum[-1]\<close>, which panics.
  \<open>make([]byte, L)\<close> is \<open>L\<close> zero bytes.
\<close>

definition getCombo :: "globals \<Rightarrow> int \<Rightarrow> error + string" where
  "getCombo g pos =
     (let L = getCombo_length g pos 1 in
      if L = 0 then Inl IndexOutOfRange
      else getCombo_fill L (pos - cum g ! (L - 1)) (replicate L (CHR 0x00)))"

section \<open>Library functions the program calls\<close>

text \<open>
  The Go standard library functions used by \<open>main\<close>, for the arguments the program
  passes: \<open>strings.TrimSpace\<close>, \<open>strconv.ParseInt(s, 10, 64)\<close>,
  \<open>strconv.FormatInt(i, 10)\<close> and the verb \<open>%06d\<close> of \<open>fmt.Sprintf\<close>.
  \<open>TrimSpace\<close> is modelled on the white space of ASCII; the white space of Unicode beyond
  ASCII, which Go trims too, is left out.
\<close>

definition isSpace :: "char \<Rightarrow> bool" where
  "isSpace c = (c \<in> set [CHR 0x09, CHR 0x0A, CHR 0x0B, CHR 0x0C, CHR 0x0D, CHR '' ''])"

definition TrimSpace :: "string \<Rightarrow> string" where
  "TrimSpace s = rev (dropWhile isSpace (rev (dropWhile isSpace s)))"

datatype num_error = ErrSyntax | ErrRange

text \<open>
  \<open>ParseUint\<close> reads the bytes from the left: a byte that is no decimal digit is a syntax
  error with value 0, a value beyond \<open>2^64 - 1\<close> is a range error with that maximum.
\<close>

fun ParseUint_loop :: "nat \<Rightarrow> string \<Rightarrow> nat \<times> num_error option" where
  "ParseUint_loop n [] = (n, None)"
| "ParseUint_loop n (c # cs) =
     (if (of_char (CHR ''0'') :: nat) \<le> of_char c \<and> (of_char c :: nat) \<le> of_char (CHR ''9'') then
        (let n1 = n * 10 + (of_char c - of_char (CHR ''0'')) in
         if n1 \<ge> 2 ^ 64 then (2 ^ 64 - 1, Some ErrRange) else ParseUint_loop n1 cs)
      else (0, Some ErrSyntax))"

definition ParseUint :: "string \<Rightarrow> nat \<times> num_error option" where
  "ParseUint s = (if s = [] then (0, Some ErrSyntax) else ParseUint_loop 0 s)"

definition ParseInt :: "string \<Rightarrow> int \<times> num_error option" where
  "ParseInt s =
     (if s = [] then (0, Some ErrSyntax)
      else
        let neg = (hd s = CHR ''-'');
            s1 = (if hd s = CHR ''+'' \<or> hd s = CHR ''-'' then tl s else s);
            (un, err) = ParseUint s1
        in if err = Some ErrSyntax then (0, err)
           else if \<not> neg \<and> un \<ge> 2 ^ 63 then (2 ^ 63 - 1, Some ErrRange)
           else if neg \<and> un > 2 ^ 63 then (- (2 ^ 63), Some ErrRange)
           else (if neg then - int un else int un, None))"

function digits10 :: "nat \<Rightarrow> string" where
  "digits10 n =
     (if n < 10 then [''0123456789'' ! n]
      else digits10 (n div 10) @ [''0123456789'' ! (n mod 10)])"
  by pat_completeness auto
termination
  by (relation "measure id") auto

definition FormatInt :: "int \<Rightarrow> string" where
  "FormatInt i = (if i < 0 then ''-'' @ digits10 (nat (- i)) else digits10 (nat i))"

text \<open>\<open>%06d\<close>: the sign counts in the width of six, the zeros follow it.\<close>

definition Sprintf_06d :: "int \<Rightarrow> string" where
  "Sprintf_06d i =
     (if i < 0
      then ''-'' @ replicate (5 - length (digits10 (nat (- i)))) (CHR ''0'') @ digits10 (nat (- i))
      else replicate (6 - length (digits10 (nat i))) (CHR ''0'') @ digits10 (nat i))"

section \<open>The world of the program\<close>

text \<open>
  The file system maps a file name to the bytes of the file; a name without a file cannot
  be read. \<open>createErr\<close> and \<open>writeErr\<close> are the environment's answers: whether
  \<open>os.Create\<close> of a name fails, and whether the writes to a file fail, all of them (a full
  disk, say). \<open>trace\<close> records the actions on files and the calls of
  \<open>gitCommitAndPush\<close>, in the order the program makes them; a flush and a write of a
  whole file are recorded with their outcome, which the program does not look at.
\<close>

datatype outcome = Done | Failed

datatype event =
    Create string
  | Flush string outcome
  | Close string
  | WriteFile string string outcome
  | GitCommitAndPush int

record world =
  files :: "string \<Rightarrow> string option"
  createErr :: "string \<Rightarrow> bool"
  writeErr :: "string \<Rightarrow> bool"
  trace :: "event list"

definition stateFile :: string where
  "stateFile = ''state.txt''"

text \<open>
  \<open>gitCommitAndPush\<close> runs git; it returns on every failure and changes no file of the
  working directory. Its call is recorded.
\<close>

definition gitCommitAndPush :: "int \<Rightarrow> world \<Rightarrow> world" where
  "gitCommitAndPush filesCompleted w = w\<lparr>trace := trace w @ [GitCommitAndPush filesCompleted]\<rparr>"

text \<open>A successful \<open>os.Create\<close>: the file exists and is empty.\<close>

definition os_Create :: "string \<Rightarrow> world \<Rightarrow> world" where
  "os_Create name w = w\<lparr>files := (files w)(name \<mapsto> []), trace := trace w @ [Create name]\<rparr>"

text \<open>
  \<open>writer.Flush()\<close> followed by \<open>file.Close()\<close>, for a file that was created empty and
  a writer whose buffer holds \<open>buf\<close>: the bytes reach the file unless its writes fail. The
  flush fails when there are bytes to write and the writes fail.
\<close>

definition Flush_Close :: "string \<Rightarrow> string \<Rightarrow> world \<Rightarrow> world" where
  "Flush_Close name buf w =
     w\<lparr>files := (if writeErr w name then files w else (files w)(name \<mapsto> buf)),
       trace := trace w @
         [Flush name (if writeErr w name \<and> buf \<noteq> [] then Failed else Done), Close name]\<rparr>"

text \<open>
  \<open>os.WriteFile\<close> opens the file as \<open>os.Create\<close> does, truncating it, and writes the
  data: when the file cannot be opened it stays as it was, when the write fails it is left
  empty.
\<close>

definition os_WriteFile :: "string \<Rightarrow> string \<Rightarrow> world \<Rightarrow> world" where
  "os_WriteFile name data w =
     (if createErr w name then w\<lparr>trace := trace w @ [WriteFile name data Failed]\<rparr>
      else if writeErr w name \<and> data \<noteq> []
      then w\<lparr>files := (files w)(name \<mapsto> []), trace := trace w @ [WriteFile name data Failed]\<rparr>
      else w\<lparr>files := (files w)(name \<mapsto> data), trace := trace w @ [WriteFile name data Done]\<rparr>)"

section \<open>main\<close>

text \<open>
  Reading the state file. The error of \<open>ParseInt\<close> is discarded (\<open>currentPos, _ =\<close>), and
  \<open>currentPos++\<close> follows whenever the file could be read.
\<close>

definition resume :: "world \<Rightarrow> int" where
  "resume w =
     (case files w stateFile of
        Some data \<Rightarrow> wrap64 (fst (ParseInt (TrimSpace data)) + 1)
      | None \<Rightarrow> 0)"

text \<open>
  The innermost loop \<open>for pos := currentPos; pos < batchEnd; pos++\<close>. The
  \<open>bufio.Writer\<close> is its buffer \<open>buf\<close>: \<open>WriteString\<close> appends to it, and the result of
  \<open>WriteString\<close> is not looked at. The buffer is handed to the file at \<open>Flush\<close>; that
  Go hands over a full buffer earlier changes nothing in the file once it is flushed, and
  nothing at all when the writes fail. A panic of \<open>getCombo\<close> ends the program.
\<close>

function write_batch :: "globals \<Rightarrow> int \<Rightarrow> int \<Rightarrow> string \<Rightarrow> error + string" where
  "write_batch g pos batchEnd buf =
     (if pos < batchEnd then
        (case getCombo g pos of
           Inl e \<Rightarrow> Inl e
         | Inr s \<Rightarrow> write_batch g (pos + 1) batchEnd (buf @ s @ [CHR 0x0A]))
      else Inr buf)"
  by pat_completeness auto
termination
  by (relation "measure (\<lambda>(g, pos, batchEnd, buf). nat (batchEnd - pos))") auto

text \<open>
  One pass of the loop \<open>for written < remainingInFile\<close>, on the variables
  \<open>(currentPos, written, buf)\<close>. The progress report only prints and is left out.
\<close>

definition batch :: "globals \<Rightarrow> int \<Rightarrow> int \<times> int \<times> string \<Rightarrow> error + int \<times> int \<times> string" where
  "batch g remainingInFile v =
     (case v of (currentPos, written, buf) \<Rightarrow>
        let batchEnd = currentPos + batchSize;
            batchEnd = (if batchEnd > currentPos + (remainingInFile - written)
                        then currentPos + (remainingInFile - written) else batchEnd);
            batchEnd = (if batchEnd > total_n g then total_n g else batchEnd)
        in case write_batch g currentPos batchEnd buf of
             Inl e \<Rightarrow> Inl e
           | Inr buf' \<Rightarrow>
               let count = batchEnd - currentPos
               in Inr (currentPos + count, written + count, buf'))"

text \<open>The loop itself; \<open>None\<close> is a loop that never ends.\<close>

partial_function (option) write_file ::
  "globals \<Rightarrow> int \<Rightarrow> int \<times> int \<times> string \<Rightarrow> (error + int \<times> int \<times> string) option" where
  "write_file g remainingInFile v =
     (if fst (snd v) < remainingInFile then
        (case batch g remainingInFile v of
           Inl e \<Rightarrow> Some (Inl e)
         | Inr v' \<Rightarrow> write_file g remainingInFile v')
      else Some (Inr v))"

declare write_file.simps [code]

text \<open>The variables of \<open>main\<close> that live across the files.\<close>

record mstate =
  world :: world
  currentPos :: int
  filesCompleted :: int

definition fileName :: "int \<Rightarrow> string" where
  "fileName fileNum = ''combos_'' @ Sprintf_06d fileNum @ ''.txt''"

text \<open>
  One pass of the loop \<open>for currentPos < total\<close>: one output file. \<open>os.Create\<close> truncates
  the file; \<open>writer.Flush()\<close> hands the buffer to the file, whose writes may fail, and
  its result is not looked at; neither are the results of \<open>file.Close()\<close> and
  \<open>os.WriteFile\<close>. A panic ends the program; it is returned with the trace up to it.
\<close>

definition one_file :: "globals \<Rightarrow> mstate \<Rightarrow> (error \<times> event list + mstate) option" where
  "one_file g s =
     (let fileNum = go_div (currentPos s) entriesPerFile + 1;
          name = fileName fileNum;
          w = world s
      in if createErr w name then Some (Inl (CreateFailed, trace w))
         else
           let w1 = os_Create name w;
               remainingInFile =
                 (if currentPos s + entriesPerFile > total_n g
                  then total_n g - currentPos s else entriesPerFile)
           in case write_file g remainingInFile (currentPos s, 0, []) of
                None \<Rightarrow> None
              | Some (Inl e) \<Rightarrow> Some (Inl (e, trace w1))
              | Some (Inr (currentPos', written, buf)) \<Rightarrow>
                  let w2 = Flush_Close name buf w1;
                      saved = FormatInt (currentPos' - 1);
                      w3 = os_WriteFile stateFile saved w2;
                      filesCompleted' = filesCompleted s + 1;
                      w4 = (if go_mod filesCompleted' commitEvery = 0
                            then gitCommitAndPush filesCompleted' w3 else w3)
                  in Some (Inr \<lparr>world = w4, currentPos = currentPos',
                                filesCompleted = filesCompleted'\<rparr>))"

partial_function (option) all_files ::
  "globals \<Rightarrow> mstate \<Rightarrow> (error \<times> event list + mstate) option" where
  "all_files g s =
     (if currentPos s < total_n g then
        (case one_file g s of
           None \<Rightarrow> None
         | Some (Inl e) \<Rightarrow> Some (Inl e)
         | Some (Inr s') \<Rightarrow> all_files g s')
      else Some (Inr s))"

declare all_files.simps [code]

text \<open>The variables of \<open>main\<close> when the file loop starts.\<close>

definition main_start :: "world \<Rightarrow> mstate" where
  "main_start w =
     (let currentPos0 = resume w;
          filesCompleted0 = go_div currentPos0 entriesPerFile
      in \<lparr>world = w, currentPos = currentPos0, filesCompleted = filesCompleted0\<rparr>)"

definition main :: "world \<Rightarrow> (error \<times> event list + mstate) option" where
  "main w =
     (let g = initTotals globals0
      in case all_files g (main_start w) of
           None \<Rightarrow> None
         | Some (Inl e) \<Rightarrow> Some (Inl e)
         | Some (Inr s) \<Rightarrow>
             Some (Inr (if go_mod (filesCompleted s) commitEvery \<noteq> 0
                        then s\<lparr>world := gitCommitAndPush (filesCompleted s) (world s)\<rparr>
                        else s)))"

section \<open>Notions used to state the properties\<close>

text \<open>
  The strings of length 1 to \<open>maxLength\<close> over the alphabet, the position of a symbol in
  a list, and the number a string denotes in base \<open>N\<close> with the alphabet as digits.
\<close>

definition valid_strings :: "string set" where
  "valid_strings = {s. 1 \<le> length s \<and> length s \<le> maxLength \<and> set s \<subseteq> set charset}"

fun index_of :: "'a list \<Rightarrow> 'a \<Rightarrow> nat" where
  "index_of [] c = 0"
| "index_of (x # xs) c = (if x = c then 0 else Suc (index_of xs c))"

definition val :: "string \<Rightarrow> int" where
  "val s = foldl (\<lambda>a c. a * 64 + int (index_of charset c)) 0 s"

text \<open>The index a string of \<open>valid_strings\<close> has in the enumeration.\<close>

definition index_of_combo :: "string \<Rightarrow> int" where
  "index_of_combo s = val s + cum (initTotals globals0) ! (length s - 1)"

text \<open>The string \<open>getCombo\<close> returns for an index, and the bytes of the lines for the indices \<open>a\<close> up to \<open>b - 1\<close>.\<close>

definition combo :: "int \<Rightarrow> string" where
  "combo i = (case getCombo (initTotals globals0) i of Inr s \<Rightarrow> s | Inl e \<Rightarrow> [])"

definition entries :: "int \<Rightarrow> int \<Rightarrow> string" where
  "entries a b = concat (map (\<lambda>i. combo i @ [CHR 0x0A]) [a..b - 1])"

text \<open>
  The call of \<open>gitCommitAndPush\<close> that follows a completed file when the counter is a
  multiple of \<open>commitEvery\<close>.
\<close>

definition checkpoint_events :: "int \<Rightarrow> event list" where
  "checkpoint_events n = (if go_mod n commitEvery = 0 then [GitCommitAndPush n] else [])"

text \<open>
  The world after a pass of the file loop that created the file \<open>name\<close>, wrote \<open>buf\<close> to
  its writer, saved \<open>saved\<close> and came to the counter \<open>n\<close>.
\<close>

definition file_done :: "string \<Rightarrow> string \<Rightarrow> string \<Rightarrow> int \<Rightarrow> world \<Rightarrow> world" where
  "file_done name buf saved n w =
     (let w3 = os_WriteFile stateFile saved (Flush_Close name buf (os_Create name w))
      in if go_mod n commitEvery = 0 then gitCommitAndPush n w3 else w3)"

text \<open>The lines of a file: the bytes between the newlines.\<close>

fun split_lines :: "string \<Rightarrow> string \<Rightarrow> string list" where
  "split_lines acc [] = (if acc = [] then [] else [acc])"
| "split_lines acc (c # cs) =
     (if c = CHR 0x0A then acc # split_lines [] cs else split_lines (acc @ [c]) cs)"

definition lines_of :: "string \<Rightarrow> string list" where
  "lines_of s = split_lines [] s"

text \<open>The files a trace creates, in order.\<close>

fun created :: "event list \<Rightarrow> string list" where
  "created [] = []"
| "created (Create name # es) = name # created es"
| "created (e # es) = created es"

text \<open>The calls of \<open>gitCommitAndPush\<close> in a trace, in order.\<close>

fun checkpoints :: "event list \<Rightarrow> int list" where
  "checkpoints [] = []"
| "checkpoints (GitCommitAndPush n # es) = n # checkpoints es"
| "checkpoints (e # es) = checkpoints es"

section \<open>The totals\<close>

declare initTotals_loop.simps [simp del]
declare getCombo_length.simps [simp del]
declare digits10.simps [simp del]
declare write_batch.simps [simp del]

lemma N_eq: "N = 64"
  by (simp add: N_def charset_def)

lemma initTotals_eq:
  "initTotals globals0 =
     \<lparr>pow = [1, 64, 4096, 262144, 16777216, 1],
      cum = [0, 64, 4160, 266304, 17043520, 0], total_n = 17043520\<rparr>"
  by (simp add: initTotals_def globals0_def maxLength_def N_eq Let_def initTotals_loop.simps)

text \<open>
  C5. \<open>initTotals\<close> sets \<open>total\<close> to the sum of \<open>N^l\<close> for \<open>l\<close> from 1 to \<open>maxLength\<close>;
  with \<open>N = 64\<close> and \<open>maxLength = 4\<close> that is \<open>64 + 4096 + 262144 + 16777216 = 17043520\<close>.
  The table has \<open>cum[0] = 0\<close> and \<open>cum[l] = cum[l-1] + N^l\<close> for every \<open>l\<close> in 1..4, so it
  is strictly increasing.
\<close>

theorem initTotals_total:
  "total_n (initTotals globals0) = (\<Sum>l = 1..maxLength. N ^ l) \<and>
   N = 64 \<and> maxLength = 4 \<and>
   total_n (initTotals globals0) = 64 + 4096 + 262144 + 16777216 \<and>
   total_n (initTotals globals0) = 17043520 \<and>
   cum (initTotals globals0) ! 0 = 0 \<and>
   (\<forall>l \<in> {1..maxLength}.
      cum (initTotals globals0) ! l = cum (initTotals globals0) ! (l - 1) + N ^ l \<and>
      cum (initTotals globals0) ! (l - 1) < cum (initTotals globals0) ! l)"
proof -
  have set4: "{1..maxLength} = {1, 2, 3, 4}"
    by (auto simp: maxLength_def)
  have s: "(\<Sum>l = 1..maxLength. N ^ l) = 17043520"
    unfolding set4 by (simp add: N_eq)
  have c: "\<forall>l \<in> {1..maxLength}.
      cum (initTotals globals0) ! l = cum (initTotals globals0) ! (l - 1) + N ^ l \<and>
      cum (initTotals globals0) ! (l - 1) < cum (initTotals globals0) ! l"
    unfolding set4 by (simp add: initTotals_eq N_eq)
  have t: "total_n (initTotals globals0) = 17043520" "cum (initTotals globals0) ! 0 = 0"
    by (simp_all add: initTotals_eq)
  from s c t show ?thesis
    by (simp add: N_eq maxLength_def)
qed

theorem initTotals_total_witness:
  "cum (initTotals globals0) ! 2 = cum (initTotals globals0) ! 1 + N ^ 2 \<and>
   cum (initTotals globals0) ! 1 < cum (initTotals globals0) ! 2"
proof -
  have "(2::nat) \<in> {1..maxLength}" by (simp add: maxLength_def)
  with initTotals_total show ?thesis by fastforce
qed

section \<open>The mapper\<close>

text \<open>
  C6. \<open>getCombo(0)\<close> is the first symbol of the alphabet, \<open>"a"\<close>; \<open>getCombo(cum[1]-1)\<close>,
  that is \<open>getCombo(63)\<close>, is its last symbol, \<open>"."\<close>; \<open>getCombo(cum[1])\<close>, that is
  \<open>getCombo(64)\<close>, is \<open>"aa"\<close>, the first symbol twice.
\<close>

theorem getCombo_boundary:
  "getCombo (initTotals globals0) 0 = Inr ''a'' \<and>
   getCombo (initTotals globals0) (cum (initTotals globals0) ! 1 - 1) = Inr ''.'' \<and>
   cum (initTotals globals0) ! 1 - 1 = 63 \<and>
   getCombo (initTotals globals0) (cum (initTotals globals0) ! 1) = Inr ''aa'' \<and>
   cum (initTotals globals0) ! 1 = 64 \<and>
   [hd charset] = ''a'' \<and> [last charset] = ''.'' \<and> [hd charset, hd charset] = ''aa''"
  by (simp add: initTotals_eq getCombo_def getCombo_length.simps maxLength_def N_eq
        go_mod_def go_div_def Let_def)
     (simp add: charset_def)

lemma charset_length: "length charset = 64"
  by (simp add: charset_def)

lemma charset_distinct: "distinct charset"
  by (simp add: charset_def)

lemma index_of_nth: "distinct xs \<Longrightarrow> i < length xs \<Longrightarrow> index_of xs (xs ! i) = i"
proof (induction xs arbitrary: i)
  case Nil
  then show ?case by simp
next
  case (Cons x xs)
  show ?case
  proof (cases i)
    case 0
    then show ?thesis by simp
  next
    case (Suc k)
    with Cons.prems have "xs ! k \<in> set xs" "x \<notin> set xs" by auto
    then have "x \<noteq> xs ! k" by auto
    with Suc Cons show ?thesis by simp
  qed
qed

lemma index_of_mem: "c \<in> set xs \<Longrightarrow> index_of xs c < length xs \<and> xs ! index_of xs c = c"
  by (induction xs) auto

lemma go_div_nonneg: "0 \<le> a \<Longrightarrow> go_div a 64 = a div 64"
  by (cases "a = 0") (simp_all add: go_div_def)

lemma go_mod_nonneg: "0 \<le> a \<Longrightarrow> go_mod a 64 = a mod 64"
  by (simp add: go_mod_def go_div_nonneg minus_div_mult_eq_mod)

lemma val_snoc: "val (s @ [c]) = val s * 64 + int (index_of charset c)"
  by (simp add: val_def)

lemma val_Nil: "val [] = 0"
  by (simp add: val_def)

lemma val_bounds: "set s \<subseteq> set charset \<Longrightarrow> 0 \<le> val s \<and> val s < 64 ^ length s"
proof (induction s rule: rev_induct)
  case Nil
  then show ?case by (simp add: val_Nil)
next
  case (snoc c s)
  then have "c \<in> set charset" by simp
  then have "index_of charset c < 64"
    using index_of_mem [of c charset] by (simp add: charset_length)
  moreover from snoc have "0 \<le> val s" "val s + 1 \<le> 64 ^ length s" by auto
  ultimately show ?case
    by (simp add: val_snoc) 
qed

lemma val_inj:
  "length s = length t \<Longrightarrow> set s \<subseteq> set charset \<Longrightarrow> set t \<subseteq> set charset \<Longrightarrow>
   val s = val t \<Longrightarrow> s = t"
proof (induction s arbitrary: t rule: rev_induct)
  case Nil
  then show ?case by simp
next
  case (snoc a s)
  from snoc.prems(1) obtain b t' where t: "t = t' @ [b]"
    by (cases t rule: rev_cases) auto
  from snoc.prems t have mem: "a \<in> set charset" "b \<in> set charset" by auto
  then have lt: "index_of charset a < 64" "index_of charset b < 64"
    using index_of_mem [of a charset] index_of_mem [of b charset]
    by (simp_all add: charset_length)
  from snoc.prems(4) t
  have eq: "val s * 64 + int (index_of charset a) = val t' * 64 + int (index_of charset b)"
    by (simp add: val_snoc)
  have "(val s * 64 + int (index_of charset a)) div 64 = val s"
       "(val t' * 64 + int (index_of charset b)) div 64 = val t'"
       "(val s * 64 + int (index_of charset a)) mod 64 = int (index_of charset a)"
       "(val t' * 64 + int (index_of charset b)) mod 64 = int (index_of charset b)"
    using lt by simp_all
  with eq have v: "val s = val t'" and i: "index_of charset a = index_of charset b"
    by simp_all
  have "a = charset ! index_of charset a"
    using index_of_mem [OF mem(1)] by simp
  also have "\<dots> = charset ! index_of charset b"
    by (simp only: i)
  also have "\<dots> = b"
    using index_of_mem [OF mem(2)] by simp
  finally have "a = b" .
  moreover from snoc.IH [of t'] snoc.prems t v have "s = t'" by simp
  ultimately show ?case using t by simp
qed

lemma getCombo_fill_val:
  "0 \<le> off \<Longrightarrow> k \<le> length s \<Longrightarrow>
   \<exists>t. getCombo_fill k off s = Inr (t @ drop k s) \<and> length t = k \<and>
       set t \<subseteq> set charset \<and> val t = off mod 64 ^ k"
proof (induction k arbitrary: off s)
  case 0
  then show ?case by (simp add: val_Nil)
next
  case (Suc k)
  let ?d = "off mod 64"
  let ?c = "charset ! nat ?d"
  from Suc.prems have d: "0 \<le> ?d" "?d < 64" by simp_all
  then have nd: "nat ?d < length charset" by (simp add: charset_length)
  have step: "getCombo_fill (Suc k) off s = getCombo_fill k (off div 64) (s[k := ?c])"
    using Suc.prems d by (simp add: go_mod_nonneg go_div_nonneg N_eq charset_length Let_def)
  from Suc.prems have "0 \<le> off div 64" "k \<le> length (s[k := ?c])" by simp_all
  from Suc.IH [OF this] obtain t where
    t: "getCombo_fill k (off div 64) (s[k := ?c]) = Inr (t @ drop k (s[k := ?c]))"
       "length t = k" "set t \<subseteq> set charset" "val t = off div 64 mod 64 ^ k"
    by blast
  from Suc.prems have dr: "drop k (s[k := ?c]) = ?c # drop (Suc k) s"
    by (simp add: Cons_nth_drop_Suc [symmetric])
  have idx: "index_of charset ?c = nat ?d"
    using index_of_nth [OF charset_distinct nd] .
  have "val (t @ [?c]) = off mod 64 ^ Suc k"
    using t(4) d idx zmod_zmult2_eq [of "64 ^ k" off 64]
    by (simp add: val_snoc)
  moreover have "set (t @ [?c]) \<subseteq> set charset"
    using t(3) nd by simp
  ultimately show ?case
    using step t dr by (intro exI [of _ "t @ [?c]"]) simp
qed


lemma getCombo_length_eq:
  "getCombo_length (initTotals globals0) pos 1 =
     (if pos < 64 then 1 else if pos < 4160 then 2 else if pos < 266304 then 3
      else if pos < 17043520 then 4 else 0)"
  by (simp add: initTotals_eq getCombo_length.simps maxLength_def)

lemma getCombo_fill_full:
  assumes "0 \<le> off" "off < 64 ^ L"
  shows "\<exists>t. getCombo_fill L off (replicate L z) = Inr t \<and> length t = L \<and>
             set t \<subseteq> set charset \<and> val t = off"
proof -
  from getCombo_fill_val [of off L "replicate L z"] assms(1)
  obtain t where t: "getCombo_fill L off (replicate L z) = Inr (t @ drop L (replicate L z))"
    "length t = L" "set t \<subseteq> set charset" "val t = off mod 64 ^ L"
    by auto
  from assms have "off mod 64 ^ L = off" by simp
  with t show ?thesis by simp
qed

lemma getCombo_block:
  assumes len: "getCombo_length (initTotals globals0) pos 1 = L"
    and off: "0 \<le> pos - cum (initTotals globals0) ! (L - 1)"
      "pos - cum (initTotals globals0) ! (L - 1) < 64 ^ L"
    and L: "1 \<le> L" "L \<le> maxLength"
  shows "\<exists>t. getCombo (initTotals globals0) pos = Inr t \<and> t \<in> valid_strings \<and>
             index_of_combo t = pos"
proof -
  from getCombo_fill_full [OF off, of "CHR 0x00"] obtain t where
    t: "getCombo_fill L (pos - cum (initTotals globals0) ! (L - 1)) (replicate L (CHR 0x00)) = Inr t"
      "length t = L" "set t \<subseteq> set charset" "val t = pos - cum (initTotals globals0) ! (L - 1)"
    by blast
  from L have "L \<noteq> 0" by simp
  then have "getCombo (initTotals globals0) pos = Inr t"
    unfolding getCombo_def len Let_def using t(1) by simp
  moreover from t L have "t \<in> valid_strings"
    by (simp add: valid_strings_def)
  moreover from t have "index_of_combo t = pos"
    by (simp add: index_of_combo_def)
  ultimately show ?thesis by blast
qed

lemma getCombo_in_range:
  assumes "0 \<le> pos" "pos < 17043520"
  shows "\<exists>t. getCombo (initTotals globals0) pos = Inr t \<and> t \<in> valid_strings \<and>
             index_of_combo t = pos"
proof -
  consider (1) "pos < 64" | (2) "64 \<le> pos" "pos < 4160" | (3) "4160 \<le> pos" "pos < 266304"
    | (4) "266304 \<le> pos" "pos < 17043520"
    using assms by linarith
  then show ?thesis
  proof cases
    case 1
    have "getCombo_length (initTotals globals0) pos 1 = 1"
      unfolding getCombo_length_eq using 1 by simp
    moreover have "0 \<le> pos - cum (initTotals globals0) ! (1 - 1)"
      "pos - cum (initTotals globals0) ! (1 - 1) < 64 ^ 1"
      using assms 1 by (simp_all add: initTotals_eq)
    ultimately show ?thesis
      by (rule getCombo_block) (simp_all add: maxLength_def)
  next
    case 2
    have "getCombo_length (initTotals globals0) pos 1 = 2"
      unfolding getCombo_length_eq using 2 by simp
    moreover have "0 \<le> pos - cum (initTotals globals0) ! (2 - 1)"
      "pos - cum (initTotals globals0) ! (2 - 1) < 64 ^ 2"
      using 2 by (simp_all add: initTotals_eq)
    ultimately show ?thesis
      by (rule getCombo_block) (simp_all add: maxLength_def)
  next
    case 3
    have "getCombo_length (initTotals globals0) pos 1 = 3"
      unfolding getCombo_length_eq using 3 by simp
    moreover have "0 \<le> pos - cum (initTotals globals0) ! (3 - 1)"
      "pos - cum (initTotals globals0) ! (3 - 1) < 64 ^ 3"
      using 3 by (simp_all add: initTotals_eq)
    ultimately show ?thesis
      by (rule getCombo_block) (simp_all add: maxLength_def)
  next
    case 4
    have "getCombo_length (initTotals globals0) pos 1 = 4"
      unfolding getCombo_length_eq using 4 by simp
    moreover have "0 \<le> pos - cum (initTotals globals0) ! (4 - 1)"
      "pos - cum (initTotals globals0) ! (4 - 1) < 64 ^ 4"
      using 4 by (simp_all add: initTotals_eq)
    ultimately show ?thesis
      by (rule getCombo_block) (simp_all add: maxLength_def)
  qed
qed

lemma index_of_combo_range:
  assumes "s \<in> valid_strings"
  shows "0 \<le> index_of_combo s \<and> index_of_combo s < 17043520"
proof -
  from assms have len: "length s \<in> {1, 2, 3, 4}" and sub: "set s \<subseteq> set charset"
    by (auto simp: valid_strings_def maxLength_def)
  from val_bounds [OF sub] have b: "0 \<le> val s" "val s < 64 ^ length s" by simp_all
  from len b show ?thesis
    by (auto simp: index_of_combo_def initTotals_eq)
qed

lemma getCombo_index_of_combo:
  assumes "s \<in> valid_strings"
  shows "getCombo (initTotals globals0) (index_of_combo s) = Inr s"
proof -
  from index_of_combo_range [OF assms] getCombo_in_range [of "index_of_combo s"]
  obtain t where t: "getCombo (initTotals globals0) (index_of_combo s) = Inr t"
    "t \<in> valid_strings" "index_of_combo t = index_of_combo s"
    by auto
  have len: "length t = length s"
  proof (rule ccontr)
    assume ne: "length t \<noteq> length s"
    from assms t(2) have ls: "length s \<in> {1, 2, 3, 4}" "length t \<in> {1, 2, 3, 4}"
      and sub: "set s \<subseteq> set charset" "set t \<subseteq> set charset"
      by (auto simp: valid_strings_def maxLength_def)
    from val_bounds [OF sub(1)] val_bounds [OF sub(2)]
    have b: "0 \<le> val s" "val s < 64 ^ length s" "0 \<le> val t" "val t < 64 ^ length t"
      by simp_all
    from ls ne b t(3) show False
      by (auto simp: index_of_combo_def initTotals_eq)
  qed
  with t(3) have "val t = val s" by (simp add: index_of_combo_def)
  with len assms t(2) have "t = s"
    by (intro val_inj) (auto simp: valid_strings_def)
  with t(1) show ?thesis by simp
qed

text \<open>
  C1. For the alphabet of 64 symbols and the maximum length 4, \<open>getCombo\<close> is a bijection
  between the indices \<open>[0, total)\<close> and the strings of length 1 to 4 over the alphabet:
  every index of the range is mapped to such a string, two distinct indices of the range
  are mapped to different strings, and every such string has exactly one index in the range.
\<close>

theorem getCombo_bijection:
  "length charset = 64 \<and> distinct charset \<and>
   (\<forall>pos \<in> {0..<total_n (initTotals globals0)}.
      \<exists>s \<in> valid_strings. getCombo (initTotals globals0) pos = Inr s) \<and>
   (\<forall>i \<in> {0..<total_n (initTotals globals0)}. \<forall>j \<in> {0..<total_n (initTotals globals0)}.
      i \<noteq> j \<longrightarrow> getCombo (initTotals globals0) i \<noteq> getCombo (initTotals globals0) j) \<and>
   (\<forall>s \<in> valid_strings.
      \<exists>!i. i \<in> {0..<total_n (initTotals globals0)} \<and> getCombo (initTotals globals0) i = Inr s)"
proof -
  have tot: "total_n (initTotals globals0) = 17043520"
    by (simp add: initTotals_eq)
  have a: "\<exists>s \<in> valid_strings. getCombo (initTotals globals0) pos = Inr s"
    if "pos \<in> {0..<total_n (initTotals globals0)}" for pos
    using that getCombo_in_range [of pos] by (auto simp: tot)
  have b: "i = j"
    if "i \<in> {0..<total_n (initTotals globals0)}" "j \<in> {0..<total_n (initTotals globals0)}"
      "getCombo (initTotals globals0) i = getCombo (initTotals globals0) j" for i j
    using that getCombo_in_range [of i] getCombo_in_range [of j] by (auto simp: tot)
  have c: "\<exists>!i. i \<in> {0..<total_n (initTotals globals0)} \<and> getCombo (initTotals globals0) i = Inr s"
    if s: "s \<in> valid_strings" for s
  proof (rule ex1I [of _ "index_of_combo s"])
    show "index_of_combo s \<in> {0..<total_n (initTotals globals0)} \<and>
          getCombo (initTotals globals0) (index_of_combo s) = Inr s"
      using index_of_combo_range [OF s] getCombo_index_of_combo [OF s] by (simp add: tot)
  next
    fix i
    assume "i \<in> {0..<total_n (initTotals globals0)} \<and> getCombo (initTotals globals0) i = Inr s"
    then show "i = index_of_combo s"
      using getCombo_in_range [of i] by (auto simp: tot)
  qed
  from a b c show ?thesis
    using charset_length charset_distinct by blast
qed

theorem getCombo_bijection_witness:
  "getCombo (initTotals globals0) 0 \<noteq> getCombo (initTotals globals0) 64"
proof -
  have r: "(0::int) \<in> {0..<total_n (initTotals globals0)}" "(64::int) \<in> {0..<total_n (initTotals globals0)}"
    by (simp_all add: initTotals_eq)
  from getCombo_bijection r show ?thesis
    by (metis zero_neq_numeral)
qed

lemma go_mod_neg: "a < 0 \<Longrightarrow> go_mod a 64 = - ((- a) mod 64)"
proof -
  assume a: "a < 0"
  then have "go_div a 64 = - ((- a) div 64)"
    by (simp add: go_div_def)
  then have "go_mod a 64 = - ((- a) - (- a) div 64 * 64)"
    by (simp add: go_mod_def)
  then show ?thesis
    by (simp add: minus_div_mult_eq_mod)
qed

lemma getCombo_beyond:
  assumes "17043520 \<le> pos"
  shows "getCombo (initTotals globals0) pos = Inl IndexOutOfRange"
  using assms unfolding getCombo_def getCombo_length_eq by simp

lemma getCombo_negative:
  assumes "pos < 0"
  shows "getCombo (initTotals globals0) pos =
           (if 64 dvd pos then Inr ''a'' else Inl IndexOutOfRange)"
proof -
  have l: "getCombo_length (initTotals globals0) pos 1 = 1"
    unfolding getCombo_length_eq using assms by simp
  have g: "getCombo (initTotals globals0) pos = getCombo_fill (Suc 0) pos [CHR 0x00]"
    unfolding getCombo_def l by (simp add: initTotals_eq)
  show ?thesis
  proof (cases "64 dvd pos")
    case True
    then have "(- pos) mod 64 = 0" by (simp add: mod_eq_0_iff_dvd)
    with assms have "go_mod pos 64 = 0" by (simp add: go_mod_neg)
    with True show ?thesis
      unfolding g by (simp add: N_eq charset_def)
  next
    case False
    then have "(- pos) mod 64 \<noteq> 0" by (simp add: mod_eq_0_iff_dvd)
    moreover have "0 \<le> (- pos) mod 64" by simp
    ultimately have "0 < (- pos) mod 64" by linarith
    with assms have "go_mod pos 64 < 0" by (simp add: go_mod_neg)
    with False show ?thesis
      unfolding g by (simp add: N_eq)
  qed
qed

text \<open>
  C3 (amended). For every index \<open>pos >= total\<close>, and for every \<open>pos < 0\<close> that is no
  multiple of \<open>N\<close>, \<open>getCombo\<close> fails with an index-out-of-range panic and returns no
  string. (The code has no check of its own; a negative multiple of \<open>N\<close> is mapped to
  \<open>"a"\<close>, as the counterexample shows.)
\<close>

theorem getCombo_out_of_range:
  assumes "total_n (initTotals globals0) \<le> pos \<or> (pos < 0 \<and> \<not> N dvd pos)"
  shows "getCombo (initTotals globals0) pos = Inl IndexOutOfRange"
proof -
  have tot: "total_n (initTotals globals0) = 17043520"
    by (simp add: initTotals_eq)
  from assms show ?thesis
    by (auto simp: tot N_eq getCombo_beyond getCombo_negative)
qed

theorem getCombo_out_of_range_witness:
  "getCombo (initTotals globals0) 17043520 = Inl IndexOutOfRange \<and>
   getCombo (initTotals globals0) (- 1) = Inl IndexOutOfRange"
proof -
  have "total_n (initTotals globals0) \<le> 17043520 \<or> ((17043520::int) < 0 \<and> \<not> N dvd 17043520)"
    by (simp add: initTotals_eq)
  moreover have "total_n (initTotals globals0) \<le> - 1 \<or> ((- 1::int) < 0 \<and> \<not> N dvd - 1)"
    by (simp add: N_eq)
  ultimately show ?thesis
    using getCombo_out_of_range [of 17043520] getCombo_out_of_range [of "- 1"] by blast
qed

theorem getCombo_negative_multiple_counterexample:
  "(- 64 :: int) < 0 \<and> getCombo (initTotals globals0) (- 64) = Inr ''a''"
  by (simp add: getCombo_negative)

section \<open>The file loop\<close>

lemma getCombo_combo:
  "0 \<le> pos \<Longrightarrow> pos < 17043520 \<Longrightarrow> getCombo (initTotals globals0) pos = Inr (combo pos)"
  using getCombo_in_range [of pos] by (auto simp: combo_def)

lemma entries_empty: "b \<le> a \<Longrightarrow> entries a b = []"
  by (simp add: entries_def)

lemma entries_step: "a < b \<Longrightarrow> entries a b = combo a @ [CHR 0x0A] @ entries (a + 1) b"
  by (simp add: entries_def upto_rec1 [of a "b - 1"])

lemma entries_append: "a \<le> m \<Longrightarrow> m \<le> b \<Longrightarrow> entries a m @ entries m b = entries a b"
proof -
  assume "a \<le> m" "m \<le> b"
  then have "[a..b - 1] = [a..m - 1] @ [m..b - 1]"
    using upto_split2 [of a "m - 1" "b - 1"] by (cases "m = a") (simp_all)
  then show ?thesis
    by (simp add: entries_def)
qed

lemma write_batch_ok:
  "0 \<le> pos \<Longrightarrow> batchEnd \<le> 17043520 \<Longrightarrow>
   write_batch (initTotals globals0) pos batchEnd buf = Inr (buf @ entries pos batchEnd)"
proof (induction "initTotals globals0" pos batchEnd buf rule: write_batch.induct)
  case (1 pos batchEnd buf)
  show ?case
  proof (cases "pos < batchEnd")
    case True
    with "1.prems" have g: "getCombo (initTotals globals0) pos = Inr (combo pos)"
      by (intro getCombo_combo) simp_all
    from "1.hyps" [OF True g] "1.prems"
    have "write_batch (initTotals globals0) (pos + 1) batchEnd (buf @ combo pos @ [CHR 0x0A]) =
          Inr ((buf @ combo pos @ [CHR 0x0A]) @ entries (pos + 1) batchEnd)"
      by simp
    with True g show ?thesis
      by (subst write_batch.simps) (simp add: entries_step)
  next
    case False
    then show ?thesis
      by (subst write_batch.simps) (simp add: entries_empty)
  qed
qed

lemma batch_ok:
  assumes "0 \<le> c" "wr < rem" "c + (rem - wr) \<le> 17043520"
  shows "batch (initTotals globals0) rem (c, wr, buf) =
           Inr (c + min batchSize (rem - wr), wr + min batchSize (rem - wr),
                buf @ entries c (c + min batchSize (rem - wr)))"
proof -
  have tot: "total_n (initTotals globals0) = 17043520"
    by (simp add: initTotals_eq)
  let ?k = "min batchSize (rem - wr)"
  from assms have w: "write_batch (initTotals globals0) c (c + ?k) buf = Inr (buf @ entries c (c + ?k))"
    by (intro write_batch_ok) (simp_all add: batchSize_def)
  from assms w show ?thesis
    by (auto simp: batch_def tot Let_def min_def batchSize_def)
qed

lemma write_file_ok:
  "0 \<le> c \<Longrightarrow> wr \<le> rem \<Longrightarrow> c + (rem - wr) \<le> 17043520 \<Longrightarrow>
   write_file (initTotals globals0) rem (c, wr, buf) =
     Some (Inr (c + (rem - wr), rem, buf @ entries c (c + (rem - wr))))"
proof (induction "nat (rem - wr)" arbitrary: c wr buf rule: less_induct)
  case less
  show ?case
  proof (cases "wr < rem")
    case False
    with less.prems have "wr = rem" by simp
    then show ?thesis
      by (subst write_file.simps) (simp add: entries_empty)
  next
    case True
    let ?k = "min batchSize (rem - wr)"
    have k: "0 < ?k" "?k \<le> rem - wr"
      using True by (simp_all add: batchSize_def)
    have b: "batch (initTotals globals0) rem (c, wr, buf) =
               Inr (c + ?k, wr + ?k, buf @ entries c (c + ?k))"
      using less.prems True by (intro batch_ok) simp_all
    have "write_file (initTotals globals0) rem (c + ?k, wr + ?k, buf @ entries c (c + ?k)) =
            Some (Inr (c + ?k + (rem - (wr + ?k)), rem,
                  (buf @ entries c (c + ?k)) @ entries (c + ?k) (c + ?k + (rem - (wr + ?k)))))"
      using less.prems k by (intro less.hyps) simp_all
    moreover have "c + ?k + (rem - (wr + ?k)) = c + (rem - wr)"
      by simp
    moreover have "entries c (c + ?k) @ entries (c + ?k) (c + (rem - wr)) = entries c (c + (rem - wr))"
      using k by (intro entries_append) simp_all
    ultimately have "write_file (initTotals globals0) rem (c + ?k, wr + ?k, buf @ entries c (c + ?k)) =
            Some (Inr (c + (rem - wr), rem, buf @ entries c (c + (rem - wr))))"
      by simp
    with True b show ?thesis
      by (subst write_file.simps) simp
  qed
qed

lemma go_div_entriesPerFile: "0 \<le> c \<Longrightarrow> go_div c entriesPerFile = c div 2000000"
  by (cases "c = 0") (simp_all add: go_div_def entriesPerFile_def)

lemma entries_nonempty: "a < b \<Longrightarrow> entries a b \<noteq> []"
  by (simp add: entries_step)

lemma one_file_ok:
  assumes c: "0 \<le> currentPos s" "currentPos s < 17043520"
    and cr: "\<not> createErr (world s) (fileName (currentPos s div 2000000 + 1))"
  shows "one_file (initTotals globals0) s =
     Some (Inr
       \<lparr>world =
          file_done (fileName (currentPos s div 2000000 + 1))
            (entries (currentPos s) (currentPos s + min 2000000 (17043520 - currentPos s)))
            (FormatInt (currentPos s + min 2000000 (17043520 - currentPos s) - 1))
            (filesCompleted s + 1) (world s),
        currentPos = currentPos s + min 2000000 (17043520 - currentPos s),
        filesCompleted = filesCompleted s + 1\<rparr>)"
proof -
  have tot: "total_n (initTotals globals0) = 17043520"
    by (simp add: initTotals_eq)
  let ?rem = "min 2000000 (17043520 - currentPos s)"
  have rem: "(if currentPos s + entriesPerFile > total_n (initTotals globals0)
              then total_n (initTotals globals0) - currentPos s else entriesPerFile) = ?rem"
    by (simp add: tot entriesPerFile_def min_def)
  have wf: "write_file (initTotals globals0) ?rem (currentPos s, 0, []) =
          Some (Inr (currentPos s + ?rem, ?rem, entries (currentPos s) (currentPos s + ?rem)))"
    using write_file_ok [of "currentPos s" 0 ?rem "[]"] c by simp
  show ?thesis
    unfolding one_file_def rem go_div_entriesPerFile [OF c(1)] Let_def
    using cr
    by (simp add: wf file_done_def Let_def)
qed

lemma file_done_files:
  "files (file_done name buf saved n w) f =
     (if f = stateFile \<and> \<not> createErr w stateFile
      then Some (if writeErr w stateFile \<and> saved \<noteq> [] then [] else saved)
      else if f = name then Some (if writeErr w name then [] else buf)
      else files w f)"
  by (simp add: file_done_def os_WriteFile_def Flush_Close_def os_Create_def
        gitCommitAndPush_def Let_def)

lemma file_done_env:
  "createErr (file_done name buf saved n w) = createErr w"
  "writeErr (file_done name buf saved n w) = writeErr w"
  by (simp_all add: file_done_def os_WriteFile_def Flush_Close_def os_Create_def
        gitCommitAndPush_def Let_def)

lemma file_done_trace:
  "trace (file_done name buf saved n w) =
     trace w @
     [Create name, Flush name (if writeErr w name \<and> buf \<noteq> [] then Failed else Done),
      Close name,
      WriteFile stateFile saved
        (if createErr w stateFile \<or> writeErr w stateFile \<and> saved \<noteq> [] then Failed else Done)] @
     checkpoint_events n"
  by (simp add: file_done_def os_WriteFile_def Flush_Close_def os_Create_def
        gitCommitAndPush_def checkpoint_events_def Let_def)

lemma split_lines_line:
  "CHR 0x0A \<notin> set x \<Longrightarrow> split_lines acc (x @ CHR 0x0A # rest) = (acc @ x) # split_lines [] rest"
  by (induction x arbitrary: acc) auto

lemma combo_valid: "0 \<le> i \<Longrightarrow> i < 17043520 \<Longrightarrow> combo i \<in> valid_strings"
  using getCombo_in_range [of i] by (auto simp: combo_def)

lemma index_of_combo_combo: "0 \<le> i \<Longrightarrow> i < 17043520 \<Longrightarrow> index_of_combo (combo i) = i"
  using getCombo_in_range [of i] by (auto simp: combo_def)

lemma newline_notin_combo: "0 \<le> i \<Longrightarrow> i < 17043520 \<Longrightarrow> CHR 0x0A \<notin> set (combo i)"
proof -
  assume "0 \<le> i" "i < 17043520"
  then have "set (combo i) \<subseteq> set charset"
    using combo_valid [of i] by (simp add: valid_strings_def)
  moreover have "CHR 0x0A \<notin> set charset"
    by (simp add: charset_def)
  ultimately show ?thesis by blast
qed

lemma lines_of_entries:
  "0 \<le> a \<Longrightarrow> b \<le> 17043520 \<Longrightarrow> split_lines [] (entries a b) = map combo [a..b - 1]"
proof (induction "nat (b - a)" arbitrary: a)
  case 0
  then show ?case by (simp add: entries_empty)
next
  case (Suc n)
  then have lt: "a < b" by simp
  with Suc.prems have nl: "CHR 0x0A \<notin> set (combo a)"
    by (intro newline_notin_combo) simp_all
  from Suc.hyps(2) have "n = nat (b - (a + 1))" by simp
  with Suc.prems have "split_lines [] (entries (a + 1) b) = map combo [a + 1..b - 1]"
    by (intro Suc.hyps(1)) simp_all
  with lt nl show ?case
    by (simp add: entries_step split_lines_line upto_rec1 [of a "b - 1"])
qed

lemma length_lines_of_entries:
  "0 \<le> a \<Longrightarrow> b \<le> 17043520 \<Longrightarrow> length (lines_of (entries a b)) = nat (b - a)"
  by (simp add: lines_of_def lines_of_entries)

lemma distinct_combos: "distinct (map combo [0..17043520 - 1])"
proof -
  have "inj_on combo {0..17043520 - 1}"
    by (rule inj_on_inverseI [of _ index_of_combo]) (simp add: index_of_combo_combo)
  then show ?thesis
    by (simp add: distinct_map)
qed

lemma all_files_step:
  assumes "0 \<le> currentPos s" "currentPos s < 17043520"
    and "\<not> createErr (world s) (fileName (currentPos s div 2000000 + 1))"
  shows "all_files (initTotals globals0) s =
     all_files (initTotals globals0)
       \<lparr>world =
          file_done (fileName (currentPos s div 2000000 + 1))
            (entries (currentPos s) (currentPos s + min 2000000 (17043520 - currentPos s)))
            (FormatInt (currentPos s + min 2000000 (17043520 - currentPos s) - 1))
            (filesCompleted s + 1) (world s),
        currentPos = currentPos s + min 2000000 (17043520 - currentPos s),
        filesCompleted = filesCompleted s + 1\<rparr>"
proof -
  have tot: "total_n (initTotals globals0) = 17043520"
    by (simp add: initTotals_eq)
  from assms show ?thesis
    by (subst all_files.simps) (simp add: one_file_ok tot)
qed

lemma all_files_done:
  "17043520 \<le> currentPos s \<Longrightarrow> all_files (initTotals globals0) s = Some (Inr s)"
proof -
  have tot: "total_n (initTotals globals0) = 17043520"
    by (simp add: initTotals_eq)
  assume "17043520 \<le> currentPos s"
  then show ?thesis
    by (subst all_files.simps) (simp add: tot)
qed

lemma fileName_neq_stateFile: "fileName n \<noteq> stateFile"
  by (simp add: fileName_def stateFile_def)

lemma stateFile_neq_fileName: "stateFile \<noteq> fileName n"
  by (simp add: fileName_def stateFile_def)

lemma fileName_1_9:
  "fileName 1 = ''combos_000001.txt''" "fileName 2 = ''combos_000002.txt''"
  "fileName 3 = ''combos_000003.txt''" "fileName 4 = ''combos_000004.txt''"
  "fileName 5 = ''combos_000005.txt''" "fileName 6 = ''combos_000006.txt''"
  "fileName 7 = ''combos_000007.txt''" "fileName 8 = ''combos_000008.txt''"
  "fileName 9 = ''combos_000009.txt''"
  by (simp_all add: fileName_def Sprintf_06d_def digits10.simps eval_nat_numeral)

lemma resume_absent: "files w stateFile = None \<Longrightarrow> resume w = 0"
  by (simp add: resume_def)

lemma created_append: "created (xs @ ys) = created xs @ created ys"
  by (induction xs rule: created.induct) simp_all

lemma created_checkpoint_events: "created (checkpoint_events n) = []"
  by (simp add: checkpoint_events_def)

lemma created_file_done:
  "created (trace (file_done name buf saved n w)) = created (trace w) @ [name]"
  by (simp add: file_done_trace created_append created_checkpoint_events)

lemma checkpoint_events_1_9:
  "checkpoint_events 1 = []" "checkpoint_events 2 = []" "checkpoint_events 3 = []"
  "checkpoint_events 4 = []" "checkpoint_events 5 = []" "checkpoint_events 6 = []"
  "checkpoint_events 7 = []" "checkpoint_events 8 = []" "checkpoint_events 9 = []"
  by (simp_all add: checkpoint_events_def go_mod_def go_div_def commitEvery_def)

lemma file_done_ok:
  assumes "\<not> createErr w stateFile" "\<not> writeErr w stateFile" "\<not> writeErr w name"
  shows "file_done name buf saved n w =
     w\<lparr>files := (files w)(name \<mapsto> buf, stateFile \<mapsto> saved),
       trace := trace w @
         [Create name, Flush name Done, Close name, WriteFile stateFile saved Done] @
         checkpoint_events n\<rparr>"
  using assms
  by (simp add: file_done_def os_WriteFile_def Flush_Close_def os_Create_def
        gitCommitAndPush_def checkpoint_events_def Let_def)

lemma fresh_all_files:
  assumes "files w stateFile = None" "\<forall>f. \<not> createErr w f" "\<forall>f. \<not> writeErr w f"
  shows "\<exists>t. all_files (initTotals globals0) \<lparr>world = w, currentPos = 0, filesCompleted = 0\<rparr> =
              Some (Inr t) \<and>
     currentPos t = 17043520 \<and> filesCompleted t = 9 \<and>
     created (trace (world t)) = created (trace w) @ map fileName [1, 2, 3, 4, 5, 6, 7, 8, 9] \<and>
     map (\<lambda>n. files (world t) (fileName n)) [1, 2, 3, 4, 5, 6, 7, 8, 9] =
       map Some [entries 0 2000000, entries 2000000 4000000, entries 4000000 6000000,
         entries 6000000 8000000, entries 8000000 10000000, entries 10000000 12000000,
         entries 12000000 14000000, entries 14000000 16000000, entries 16000000 17043520]"
  using assms
  by (simp add: all_files_step all_files_done file_done_ok created_append
        created_checkpoint_events fileName_1_9 fileName_neq_stateFile stateFile_def)

lemma getCombo_map_combo:
  "map (getCombo (initTotals globals0)) [0..17043520 - 1] = map Inr (map combo [0..17043520 - 1])"
  by (simp add: getCombo_combo)

lemma entries_whole:
  "concat [entries 0 2000000, entries 2000000 4000000, entries 4000000 6000000,
     entries 6000000 8000000, entries 8000000 10000000, entries 10000000 12000000,
     entries 12000000 14000000, entries 14000000 16000000, entries 16000000 17043520] =
   entries 0 17043520"
proof -
  have "entries 14000000 16000000 @ entries 16000000 17043520 = entries 14000000 17043520"
    by (rule entries_append) simp_all
  moreover have "entries 12000000 14000000 @ entries 14000000 17043520 = entries 12000000 17043520"
    by (rule entries_append) simp_all
  moreover have "entries 10000000 12000000 @ entries 12000000 17043520 = entries 10000000 17043520"
    by (rule entries_append) simp_all
  moreover have "entries 8000000 10000000 @ entries 10000000 17043520 = entries 8000000 17043520"
    by (rule entries_append) simp_all
  moreover have "entries 6000000 8000000 @ entries 8000000 17043520 = entries 6000000 17043520"
    by (rule entries_append) simp_all
  moreover have "entries 4000000 6000000 @ entries 6000000 17043520 = entries 4000000 17043520"
    by (rule entries_append) simp_all
  moreover have "entries 2000000 4000000 @ entries 4000000 17043520 = entries 2000000 17043520"
    by (rule entries_append) simp_all
  moreover have "entries 0 2000000 @ entries 2000000 17043520 = entries 0 17043520"
    by (rule entries_append) simp_all
  ultimately show ?thesis by simp
qed

text \<open>
  C4. A fresh run without interruption (no state file, no failing file operation) ends
  normally, having created the files numbered 1 to 9 in this order; their contents, in
  numeric order, are line by line \<open>getCombo(0), getCombo(1), ..., getCombo(total-1)\<close>,
  with no line twice, and every file but the last has exactly \<open>entriesPerFile\<close> lines.
\<close>

theorem fresh_run_partition:
  assumes "files w stateFile = None" "\<forall>f. \<not> createErr w f" "\<forall>f. \<not> writeErr w f"
  shows "\<exists>t cs. main w = Some (Inr t) \<and> length cs = 9 \<and>
     created (trace (world t)) = created (trace w) @ map fileName [1, 2, 3, 4, 5, 6, 7, 8, 9] \<and>
     map (\<lambda>n. files (world t) (fileName n)) [1, 2, 3, 4, 5, 6, 7, 8, 9] = map Some cs \<and>
     map Inr (lines_of (concat cs)) =
       map (getCombo (initTotals globals0)) [0..total_n (initTotals globals0) - 1] \<and>
     distinct (lines_of (concat cs)) \<and>
     (\<forall>c \<in> set (butlast cs). length (lines_of c) = nat entriesPerFile)"
proof -
  let ?cs = "[entries 0 2000000, entries 2000000 4000000, entries 4000000 6000000,
         entries 6000000 8000000, entries 8000000 10000000, entries 10000000 12000000,
         entries 12000000 14000000, entries 14000000 16000000, entries 16000000 17043520]"
  have tot: "total_n (initTotals globals0) = 17043520"
    by (simp add: initTotals_eq)
  from fresh_all_files [OF assms] obtain t where
    t: "all_files (initTotals globals0) \<lparr>world = w, currentPos = 0, filesCompleted = 0\<rparr> =
          Some (Inr t)"
      "filesCompleted t = 9"
      "created (trace (world t)) = created (trace w) @ map fileName [1, 2, 3, 4, 5, 6, 7, 8, 9]"
      "map (\<lambda>n. files (world t) (fileName n)) [1, 2, 3, 4, 5, 6, 7, 8, 9] = map Some ?cs"
    by blast
  let ?t = "t\<lparr>world := gitCommitAndPush 9 (world t)\<rparr>"
  have m: "main w = Some (Inr ?t)"
    using assms(1) t(1, 2)
    by (simp add: main_def main_start_def resume_absent go_div_def go_mod_def commitEvery_def)
  have tr: "created (trace (world ?t)) = created (trace w) @ map fileName [1, 2, 3, 4, 5, 6, 7, 8, 9]"
    using t(3) by (simp add: gitCommitAndPush_def created_append)
  have fs: "map (\<lambda>n. files (world ?t) (fileName n)) [1, 2, 3, 4, 5, 6, 7, 8, 9] = map Some ?cs"
    using t(4) by (simp add: gitCommitAndPush_def)
  have ln: "lines_of (concat ?cs) = map combo [0..17043520 - 1]"
    unfolding entries_whole lines_of_def by (rule lines_of_entries) simp_all
  have l: "map Inr (lines_of (concat ?cs)) =
       map (getCombo (initTotals globals0)) [0..total_n (initTotals globals0) - 1]"
    unfolding ln tot getCombo_map_combo ..
  have d: "distinct (lines_of (concat ?cs))"
    unfolding ln by (rule distinct_combos)
  have b: "\<forall>c \<in> set (butlast ?cs). length (lines_of c) = nat entriesPerFile"
    by (simp add: length_lines_of_entries entriesPerFile_def)
  have len: "length ?cs = 9" by simp
  from m len tr fs l d b show ?thesis by blast
qed

theorem fresh_run_partition_witness:
  "\<exists>t cs. main \<lparr>files = Map.empty, createErr = (\<lambda>f. False), writeErr = (\<lambda>f. False),
                  trace = []\<rparr> = Some (Inr t) \<and> length cs = 9 \<and>
     created (trace (world t)) = map fileName [1, 2, 3, 4, 5, 6, 7, 8, 9] \<and>
     map (\<lambda>n. files (world t) (fileName n)) [1, 2, 3, 4, 5, 6, 7, 8, 9] = map Some cs \<and>
     map Inr (lines_of (concat cs)) =
       map (getCombo (initTotals globals0)) [0..total_n (initTotals globals0) - 1] \<and>
     distinct (lines_of (concat cs))"
proof -
  let ?w = "\<lparr>files = Map.empty, createErr = (\<lambda>f. False), writeErr = (\<lambda>f. False),
             trace = []\<rparr>"
  have h: "files ?w stateFile = None" "\<forall>f. \<not> createErr ?w f" "\<forall>f. \<not> writeErr ?w f"
    by simp_all
  from fresh_run_partition [OF h] obtain t cs where
    r: "main ?w = Some (Inr t)" "length cs = 9"
      "created (trace (world t)) = created (trace ?w) @ map fileName [1, 2, 3, 4, 5, 6, 7, 8, 9]"
      "map (\<lambda>n. files (world t) (fileName n)) [1, 2, 3, 4, 5, 6, 7, 8, 9] = map Some cs"
      "map Inr (lines_of (concat cs)) =
         map (getCombo (initTotals globals0)) [0..total_n (initTotals globals0) - 1]"
      "distinct (lines_of (concat cs))"
    by blast
  from r(3) have "created (trace (world t)) = map fileName [1, 2, 3, 4, 5, 6, 7, 8, 9]"
    by simp
  with r(1, 2, 4, 5, 6) show ?thesis by blast
qed

section \<open>Traces of runs\<close>

lemma resume_syntax_error:
  "files w stateFile = Some data \<Longrightarrow> snd (ParseInt (TrimSpace data)) = Some ErrSyntax \<Longrightarrow>
   resume w = 1"
  by (cases "ParseInt (TrimSpace data)")
     (auto simp: resume_def ParseInt_def wrap64_def Let_def split: if_splits prod.splits)

lemma resume_parsed:
  "files w stateFile = Some data \<Longrightarrow> ParseInt (TrimSpace data) = (v, None) \<Longrightarrow>
   resume w = wrap64 (v + 1)"
  by (simp add: resume_def)

lemma wrap64_id: "- (2 ^ 63) \<le> x \<Longrightarrow> x < 2 ^ 63 \<Longrightarrow> wrap64 x = x"
  by (simp add: wrap64_def)

lemma one_file_InrD:
  assumes "one_file g s = Some (Inr s')"
  shows "\<exists>buf. s' =
           \<lparr>world = file_done (fileName (go_div (currentPos s) entriesPerFile + 1)) buf
                     (FormatInt (currentPos s' - 1)) (filesCompleted s + 1) (world s),
            currentPos = currentPos s', filesCompleted = filesCompleted s + 1\<rparr>"
  using assms
  by (auto simp: one_file_def Let_def file_done_def
        split: if_splits option.splits sum.splits prod.splits)

lemma one_file_Inr:
  assumes "one_file g s = Some (Inr s')"
  shows "filesCompleted s' = filesCompleted s + 1"
    and "\<exists>fl wr. trace (world s') = trace (world s) @
           [Create (fileName (go_div (currentPos s) entriesPerFile + 1)),
            Flush (fileName (go_div (currentPos s) entriesPerFile + 1)) fl,
            Close (fileName (go_div (currentPos s) entriesPerFile + 1)),
            WriteFile stateFile (FormatInt (currentPos s' - 1)) wr] @
           checkpoint_events (filesCompleted s')"
proof -
  from one_file_InrD [OF assms] obtain buf where
    s': "s' =
           \<lparr>world = file_done (fileName (go_div (currentPos s) entriesPerFile + 1)) buf
                     (FormatInt (currentPos s' - 1)) (filesCompleted s + 1) (world s),
            currentPos = currentPos s', filesCompleted = filesCompleted s + 1\<rparr>"
    by blast
  then have f: "filesCompleted s' = filesCompleted s + 1"
    by (metis mstate.select_convs(3))
  from s' have "world s' =
      file_done (fileName (go_div (currentPos s) entriesPerFile + 1)) buf
        (FormatInt (currentPos s' - 1)) (filesCompleted s + 1) (world s)"
    by (metis mstate.select_convs(1))
  then have "trace (world s') = trace (world s) @
           [Create (fileName (go_div (currentPos s) entriesPerFile + 1)),
            Flush (fileName (go_div (currentPos s) entriesPerFile + 1))
              (if writeErr (world s) (fileName (go_div (currentPos s) entriesPerFile + 1)) \<and>
                  buf \<noteq> [] then Failed else Done),
            Close (fileName (go_div (currentPos s) entriesPerFile + 1)),
            WriteFile stateFile (FormatInt (currentPos s' - 1))
              (if createErr (world s) stateFile \<or>
                  writeErr (world s) stateFile \<and> FormatInt (currentPos s' - 1) \<noteq> []
               then Failed else Done)] @
           checkpoint_events (filesCompleted s')"
    by (simp add: file_done_trace f)
  then show "\<exists>fl wr. trace (world s') = trace (world s) @
           [Create (fileName (go_div (currentPos s) entriesPerFile + 1)),
            Flush (fileName (go_div (currentPos s) entriesPerFile + 1)) fl,
            Close (fileName (go_div (currentPos s) entriesPerFile + 1)),
            WriteFile stateFile (FormatInt (currentPos s' - 1)) wr] @
           checkpoint_events (filesCompleted s')"
    by blast
  from f show "filesCompleted s' = filesCompleted s + 1" .
qed

lemma all_files_end:
  assumes "all_files g s = Some r"
  shows "r = Inr t \<Longrightarrow> \<not> currentPos t < total_n g"
  using assms
proof (induct rule: all_files.raw_induct [rotated 1, consumes 1])
  case (1 all_files g s r)
  note IH = "1"(1) and body = "1"(2) and r = "1"(3)
  show ?case
  proof (cases "currentPos s < total_n g")
    case False
    with body r show ?thesis by auto
  next
    case True
    with body r obtain s' where "all_files g s' = Some r"
      by (auto split: option.splits sum.splits)
    from IH [OF this r] show ?thesis .
  qed
qed

lemma main_eq:
  "main w =
     (case all_files (initTotals globals0) (main_start w) of
        None \<Rightarrow> None
      | Some (Inl e) \<Rightarrow> Some (Inl e)
      | Some (Inr s) \<Rightarrow>
          Some (Inr (if go_mod (filesCompleted s) commitEvery \<noteq> 0
                     then s\<lparr>world := gitCommitAndPush (filesCompleted s) (world s)\<rparr>
                     else s)))"
  by (simp add: main_def Let_def)

lemma main_start_eq:
  "main_start w =
     \<lparr>world = w, currentPos = resume w, filesCompleted = go_div (resume w) entriesPerFile\<rparr>"
  by (simp add: main_start_def Let_def)

lemma go_mod_commitEvery: "go_mod a commitEvery = 0 \<longleftrightarrow> commitEvery dvd a"
proof -
  consider "a < 0" | "a = 0" | "0 < a" by linarith
  then show ?thesis
  proof cases
    case 1
    then have "go_mod a 20 = - ((- a) mod 20)"
      using minus_div_mult_eq_mod [of "- a" 20] by (simp add: go_mod_def go_div_def)
    then show ?thesis
      by (simp add: commitEvery_def mod_eq_0_iff_dvd)
  next
    case 2
    then show ?thesis by (simp add: go_mod_def go_div_def)
  next
    case 3
    then have "go_mod a 20 = a mod 20"
      by (simp add: go_mod_def go_div_def minus_div_mult_eq_mod)
    then show ?thesis
      by (simp add: commitEvery_def mod_eq_0_iff_dvd)
  qed
qed

lemma checkpoints_append: "checkpoints (xs @ ys) = checkpoints xs @ checkpoints ys"
  by (induction xs rule: checkpoints.induct) simp_all

lemma checkpoints_block:
  "checkpoints ([Create name, Flush name fl, Close name, WriteFile f saved wr] @
       checkpoint_events n) =
     (if commitEvery dvd n then [n] else [])"
  by (simp add: checkpoint_events_def go_mod_commitEvery)

lemma main_Inr:
  assumes "main w = Some (Inr t)"
  shows "\<exists>s. all_files (initTotals globals0) (main_start w) = Some (Inr s) \<and>
           total_n (initTotals globals0) \<le> currentPos s \<and> currentPos t = currentPos s \<and>
           filesCompleted t = filesCompleted s \<and> files (world t) = files (world s) \<and>
           trace (world t) = trace (world s) @
             (if commitEvery dvd filesCompleted s then []
              else [GitCommitAndPush (filesCompleted s)])"
proof -
  from assms obtain s where
    s: "all_files (initTotals globals0) (main_start w) = Some (Inr s)"
      and t: "t = (if go_mod (filesCompleted s) commitEvery \<noteq> 0
                   then s\<lparr>world := gitCommitAndPush (filesCompleted s) (world s)\<rparr> else s)"
    by (auto simp: main_eq split: option.splits sum.splits)
  from all_files_end [OF s refl] have "total_n (initTotals globals0) \<le> currentPos s"
    by simp
  with s t show ?thesis
    by (auto simp: go_mod_commitEvery gitCommitAndPush_def)
qed

lemma one_file_currentPos:
  assumes "one_file (initTotals globals0) s = Some (Inr s')"
    "0 \<le> currentPos s" "currentPos s < 17043520"
  shows "currentPos s' = currentPos s + min 2000000 (17043520 - currentPos s)"
proof (cases "createErr (world s) (fileName (currentPos s div 2000000 + 1))")
  case True
  with assms show ?thesis
    by (simp add: one_file_def Let_def go_div_entriesPerFile)
next
  case False
  from one_file_ok [OF assms(2, 3) False] assms(1) show ?thesis
    by auto
qed

lemma all_files_ends_at_total:
  assumes "all_files g s = Some r"
  shows "g = initTotals globals0 \<Longrightarrow> 0 \<le> currentPos s \<Longrightarrow> currentPos s \<le> 17043520 \<Longrightarrow>
         r = Inr t \<Longrightarrow> currentPos t = 17043520"
  using assms
proof (induct rule: all_files.raw_induct [rotated 1, consumes 1])
  case (1 all_files g s r)
  note IH = "1"(1) and body = "1"(2) and g = "1"(3) and c = "1"(4, 5) and r = "1"(6)
  have tot: "total_n g = 17043520"
    by (simp add: g initTotals_eq)
  show ?case
  proof (cases "currentPos s < 17043520")
    case False
    with body c r show ?thesis by (auto simp: tot)
  next
    case True
    with body obtain s' where o: "one_file g s = Some (Inr s')" and a: "all_files g s' = Some r"
      unfolding r by (auto simp: tot split: option.splits sum.splits)
    from one_file_currentPos [OF o [unfolded g] c(1) True]
    have "0 \<le> currentPos s'" "currentPos s' \<le> 17043520"
      using c True by simp_all
    with IH [OF a g _ _ r] show ?thesis by simp
  qed
qed

section \<open>Resuming, saving the state and checkpoints\<close>

lemma one_file_content:
  assumes o: "one_file (initTotals globals0) s = Some (Inr s')"
    and c: "0 \<le> currentPos s" "currentPos s < 17043520"
    and w: "\<not> writeErr (world s) (fileName (currentPos s div 2000000 + 1))"
  shows "currentPos s < currentPos s'" "currentPos s' \<le> 17043520"
    "currentPos s' = currentPos s + min 2000000 (17043520 - currentPos s)"
    "files (world s') (fileName (currentPos s div 2000000 + 1)) =
       Some (entries (currentPos s) (currentPos s'))"
proof -
  have cr: "\<not> createErr (world s) (fileName (currentPos s div 2000000 + 1))"
  proof
    assume "createErr (world s) (fileName (currentPos s div 2000000 + 1))"
    with o c show False
      by (simp add: one_file_def Let_def go_div_entriesPerFile)
  qed
  from one_file_ok [OF c cr] o w
  show "currentPos s' = currentPos s + min 2000000 (17043520 - currentPos s)"
    "files (world s') (fileName (currentPos s div 2000000 + 1)) =
       Some (entries (currentPos s) (currentPos s'))"
    by (auto simp: file_done_files fileName_neq_stateFile)
  with c show "currentPos s < currentPos s'" "currentPos s' \<le> 17043520"
    by simp_all
qed

text \<open>
  C8. The counter of completed files starts as \<open>currentPos / entriesPerFile\<close> for the
  resumed position. A pass of the file loop adds one to it and calls \<open>gitCommitAndPush\<close>
  exactly when the new value is a multiple of \<open>commitEvery = 20\<close>. When the loop has ended
  (at \<open>currentPos = total\<close> for a resumed position within \<open>[0, total]\<close>), \<open>main\<close> calls
  \<open>gitCommitAndPush\<close> once more exactly when the counter is no multiple of 20.
\<close>

theorem checkpoint_every_commitEvery:
  "commitEvery = 20 \<and>
   filesCompleted (main_start w) = go_div (resume w) entriesPerFile \<and>
   (one_file g s = Some (Inr s') \<longrightarrow>
      filesCompleted s' = filesCompleted s + 1 \<and>
      (\<exists>tr. trace (world s') = trace (world s) @ tr \<and>
         checkpoints tr =
           (if commitEvery dvd filesCompleted s' then [filesCompleted s'] else []))) \<and>
   (main w = Some (Inr t) \<longrightarrow>
      (\<exists>s. all_files (initTotals globals0) (main_start w) = Some (Inr s) \<and>
         total_n (initTotals globals0) \<le> currentPos s \<and>
         (0 \<le> resume w \<and> resume w \<le> total_n (initTotals globals0) \<longrightarrow>
            currentPos s = total_n (initTotals globals0)) \<and>
         filesCompleted t = filesCompleted s \<and>
         trace (world t) = trace (world s) @
           (if commitEvery dvd filesCompleted s then []
            else [GitCommitAndPush (filesCompleted s)])))"
proof (intro conjI impI)
  show "commitEvery = 20" by (simp add: commitEvery_def)
  show "filesCompleted (main_start w) = go_div (resume w) entriesPerFile"
    by (simp add: main_start_eq)
next
  assume o: "one_file g s = Some (Inr s')"
  from one_file_Inr(1) [OF o] show "filesCompleted s' = filesCompleted s + 1" .
  from one_file_Inr(2) [OF o] obtain fl wr where
    "trace (world s') = trace (world s) @
           [Create (fileName (go_div (currentPos s) entriesPerFile + 1)),
            Flush (fileName (go_div (currentPos s) entriesPerFile + 1)) fl,
            Close (fileName (go_div (currentPos s) entriesPerFile + 1)),
            WriteFile stateFile (FormatInt (currentPos s' - 1)) wr] @
           checkpoint_events (filesCompleted s')"
    by blast
  then show "\<exists>tr. trace (world s') = trace (world s) @ tr \<and>
         checkpoints tr =
           (if commitEvery dvd filesCompleted s' then [filesCompleted s'] else [])"
    using checkpoints_block by blast
next
  assume m: "main w = Some (Inr t)"
  have tot: "total_n (initTotals globals0) = 17043520"
    by (simp add: initTotals_eq)
  from main_Inr [OF m] obtain s where
    s: "all_files (initTotals globals0) (main_start w) = Some (Inr s)"
      "total_n (initTotals globals0) \<le> currentPos s"
      "filesCompleted t = filesCompleted s"
      "trace (world t) = trace (world s) @
             (if commitEvery dvd filesCompleted s then []
              else [GitCommitAndPush (filesCompleted s)])"
    by blast
  have "currentPos s = total_n (initTotals globals0)"
    if "0 \<le> resume w \<and> resume w \<le> total_n (initTotals globals0)"
    using all_files_ends_at_total [OF s(1) refl, of s] that
    by (simp add: tot main_start_eq)
  with s show "\<exists>s. all_files (initTotals globals0) (main_start w) = Some (Inr s) \<and>
         total_n (initTotals globals0) \<le> currentPos s \<and>
         (0 \<le> resume w \<and> resume w \<le> total_n (initTotals globals0) \<longrightarrow>
            currentPos s = total_n (initTotals globals0)) \<and>
         filesCompleted t = filesCompleted s \<and>
         trace (world t) = trace (world s) @
           (if commitEvery dvd filesCompleted s then []
            else [GitCommitAndPush (filesCompleted s)])"
    by blast
qed

lemma ParseInt_examples:
  "ParseInt (TrimSpace ''17043517'') = (17043517, None)"
  "ParseInt (TrimSpace ''17043518'') = (17043518, None)"
  "ParseInt (TrimSpace ''17043519'') = (17043519, None)"
  "ParseInt (TrimSpace ''abc'') = (0, Some ErrSyntax)"
  by (simp_all add: TrimSpace_def isSpace_def ParseInt_def ParseUint_def)

lemma go_mod_9: "go_mod 9 commitEvery \<noteq> 0" "go_mod 8 commitEvery \<noteq> 0"
  by (simp_all add: go_mod_def go_div_def commitEvery_def)

lemma combo_examples:
  "combo 0 = ''a''" "combo 1 = ''b''" "combo 17043519 = ''....''"
  by (simp_all add: combo_def initTotals_eq getCombo_def getCombo_length.simps maxLength_def
        N_eq go_mod_def go_div_def Let_def charset_def)

lemma main_last_file:
  assumes "files w stateFile = Some ''17043518''" "\<not> createErr w (fileName 9)"
  shows "main w =
     Some (Inr
       \<lparr>world = gitCommitAndPush 9
          (file_done (fileName 9) (entries 17043519 17043520) (FormatInt 17043519) 9 w),
        currentPos = 17043520, filesCompleted = 9\<rparr>)"
proof -
  from assms(1) have r: "resume w = 17043519"
    by (simp add: resume_def ParseInt_examples wrap64_def)
  have s: "main_start w = \<lparr>world = w, currentPos = 17043519, filesCompleted = 8\<rparr>"
    by (simp add: main_start_eq r go_div_def entriesPerFile_def)
  show ?thesis
    unfolding main_eq s using assms(2)
    by (simp add: all_files_step all_files_done go_mod_9)
qed

lemma FormatInt_examples:
  "FormatInt 1999999 = ''1999999''" "FormatInt 17043519 = ''17043519''"
  by (simp_all add: FormatInt_def digits10.simps)

text \<open>
  C7. The code at an input where the flush of an output file fails: a fresh directory in
  which every write to \<open>combos_000001.txt\<close> fails. The first pass of the file loop calls
  \<open>Flush\<close>, which fails, and \<open>Close\<close>, and then writes 1999999 to the state file all the
  same: the file is empty, the run goes on with the next file, and a later run would resume
  at index 2000000.
\<close>

theorem state_saved_after_failed_flush:
  "\<exists>s1. one_file (initTotals globals0)
           (main_start \<lparr>files = Map.empty, createErr = (\<lambda>f. False),
                        writeErr = (\<lambda>f. f = fileName 1), trace = []\<rparr>) = Some (Inr s1) \<and>
        all_files (initTotals globals0)
           (main_start \<lparr>files = Map.empty, createErr = (\<lambda>f. False),
                        writeErr = (\<lambda>f. f = fileName 1), trace = []\<rparr>) =
          all_files (initTotals globals0) s1 \<and>
        trace (world s1) =
          [Create (fileName 1), Flush (fileName 1) Failed, Close (fileName 1),
           WriteFile stateFile ''1999999'' Done] \<and>
        files (world s1) (fileName 1) = Some [] \<and>
        files (world s1) stateFile = Some ''1999999'' \<and>
        currentPos s1 = 2000000 \<and>
        resume (world s1) = 2000000"
proof -
  let ?w = "\<lparr>files = Map.empty, createErr = (\<lambda>f. False),
              writeErr = (\<lambda>f. f = fileName 1), trace = []\<rparr>"
  let ?s1 = "\<lparr>world = file_done (fileName 1) (entries 0 2000000) (FormatInt 1999999) 1 ?w,
              currentPos = 2000000, filesCompleted = 1\<rparr>"
  have s: "main_start ?w = \<lparr>world = ?w, currentPos = 0, filesCompleted = 0\<rparr>"
    by (simp add: main_start_eq resume_def go_div_def)
  have o: "one_file (initTotals globals0) (main_start ?w) = Some (Inr ?s1)"
    unfolding s by (simp add: one_file_ok)
  have a: "all_files (initTotals globals0) (main_start ?w) = all_files (initTotals globals0) ?s1"
    unfolding s by (simp add: all_files_step)
  have ne: "entries 0 2000000 \<noteq> []"
    by (rule entries_nonempty) simp
  have t: "trace (world ?s1) =
          [Create (fileName 1), Flush (fileName 1) Failed, Close (fileName 1),
           WriteFile stateFile ''1999999'' Done]"
    by (simp add: file_done_trace ne stateFile_neq_fileName checkpoint_events_1_9
          FormatInt_examples)
  have f: "files (world ?s1) (fileName 1) = Some []"
    "files (world ?s1) stateFile = Some ''1999999''"
    by (simp_all add: file_done_files fileName_neq_stateFile stateFile_neq_fileName
          FormatInt_examples)
  have p: "ParseInt (TrimSpace ''1999999'') = (1999999, None)"
    by (simp add: TrimSpace_def isSpace_def ParseInt_def ParseUint_def)
  from f(2) have r: "resume (world ?s1) = 2000000"
    by (simp add: resume_def p wrap64_def)
  have c: "currentPos ?s1 = 2000000"
    by simp
  from o a t f c r show ?thesis
    by blast
qed

text \<open>
  C9. The code at an input where the writes to the output file fail: the state file holds
  17043518 and every write to \<open>combos_000009.txt\<close> fails. The run ends normally, the file is
  empty, the entry \<open>"...."\<close> of index 17043519 is lost, and the state file says 17043519.
  When \<open>os.Create\<close> fails instead, the run ends in a panic.
\<close>

theorem write_failure_ignored:
  "(\<exists>t. main \<lparr>files = [stateFile \<mapsto> ''17043518''], createErr = (\<lambda>f. False),
              writeErr = (\<lambda>f. f = fileName 9), trace = []\<rparr> = Some (Inr t) \<and>
        currentPos t = total_n (initTotals globals0) \<and>
        files (world t) (fileName 9) = Some [] \<and>
        files (world t) stateFile = Some (FormatInt 17043519) \<and>
        trace (world t) =
          [Create (fileName 9), Flush (fileName 9) Failed, Close (fileName 9),
           WriteFile stateFile (FormatInt 17043519) Done, GitCommitAndPush 9]) \<and>
   getCombo (initTotals globals0) 17043519 = Inr ''....'' \<and>
   main \<lparr>files = [stateFile \<mapsto> ''17043518''], createErr = (\<lambda>f. True),
         writeErr = (\<lambda>f. False), trace = []\<rparr> = Some (Inl (CreateFailed, []))"
proof -
  let ?w = "\<lparr>files = [stateFile \<mapsto> ''17043518''], createErr = (\<lambda>f. False),
              writeErr = (\<lambda>f. f = fileName 9), trace = []\<rparr>"
  let ?c = "\<lparr>files = [stateFile \<mapsto> ''17043518''], createErr = (\<lambda>f. True),
              writeErr = (\<lambda>f. False), trace = []\<rparr>"
  have "files ?w stateFile = Some ''17043518''" "\<not> createErr ?w (fileName 9)"
    by simp_all
  note m = main_last_file [OF this]
  have ne: "entries 17043519 17043520 \<noteq> []"
    by (rule entries_nonempty) simp
  have fne: "FormatInt 17043519 \<noteq> []"
    by (simp add: FormatInt_examples)
  have a: "\<exists>t. main ?w = Some (Inr t) \<and>
        currentPos t = total_n (initTotals globals0) \<and>
        files (world t) (fileName 9) = Some [] \<and>
        files (world t) stateFile = Some (FormatInt 17043519) \<and>
        trace (world t) =
          [Create (fileName 9), Flush (fileName 9) Failed, Close (fileName 9),
           WriteFile stateFile (FormatInt 17043519) Done, GitCommitAndPush 9]"
    unfolding m
    by (simp add: initTotals_eq gitCommitAndPush_def file_done_files file_done_trace ne
          fileName_neq_stateFile stateFile_neq_fileName checkpoint_events_1_9)
  have b: "getCombo (initTotals globals0) 17043519 = Inr ''....''"
    using getCombo_combo [of 17043519] by (simp add: combo_examples)
  have r: "resume ?c = 17043519"
    by (simp add: resume_def ParseInt_examples wrap64_def)
  have s: "main_start ?c = \<lparr>world = ?c, currentPos = 17043519, filesCompleted = 8\<rparr>"
    by (simp add: main_start_eq r go_div_def entriesPerFile_def)
  have c: "main ?c = Some (Inl (CreateFailed, []))"
    unfolding main_eq s
    by (subst all_files.simps) (simp add: initTotals_eq one_file_def Let_def)
  from a b c show ?thesis by blast
qed

text \<open>
  The claim C10 at \<open>v = total - 1 = 17043519\<close>: \<open>v + 1\<close> is no multiple of
  \<open>entriesPerFile\<close>, and the resumed run creates no file; it only calls
  \<open>gitCommitAndPush\<close>.
\<close>

theorem resume_at_total_counterexample:
  "(0::int) \<le> 17043519 \<and> 17043519 \<le> total_n (initTotals globals0) - 1 \<and>
   \<not> entriesPerFile dvd (17043519 + 1) \<and>
   main \<lparr>files = [stateFile \<mapsto> ''17043519''], createErr = (\<lambda>f. False),
         writeErr = (\<lambda>f. False), trace = []\<rparr> =
     Some (Inr \<lparr>world = \<lparr>files = [stateFile \<mapsto> ''17043519''], createErr = (\<lambda>f. False),
                         writeErr = (\<lambda>f. False), trace = [GitCommitAndPush 8]\<rparr>,
                currentPos = 17043520, filesCompleted = 8\<rparr>) \<and>
   created [GitCommitAndPush 8] = []"
proof -
  let ?w = "\<lparr>files = [stateFile \<mapsto> ''17043519''], createErr = (\<lambda>f. False),
              writeErr = (\<lambda>f. False), trace = []\<rparr>"
  have r: "resume ?w = 17043520"
    by (simp add: resume_def ParseInt_examples wrap64_def)
  have s: "main_start ?w = \<lparr>world = ?w, currentPos = 17043520, filesCompleted = 8\<rparr>"
    by (simp add: main_start_eq r go_div_def entriesPerFile_def)
  have "main ?w =
     Some (Inr \<lparr>world = \<lparr>files = [stateFile \<mapsto> ''17043519''], createErr = (\<lambda>f. False),
                         writeErr = (\<lambda>f. False), trace = [GitCommitAndPush 8]\<rparr>,
                currentPos = 17043520, filesCompleted = 8\<rparr>)"
    unfolding main_eq s by (simp add: all_files_done go_mod_9 gitCommitAndPush_def)
  then show ?thesis
    by (simp add: initTotals_eq entriesPerFile_def)
qed

lemma getCombo_map_range:
  "0 \<le> a \<Longrightarrow> b < 17043520 \<Longrightarrow>
   map (getCombo (initTotals globals0)) [a..b] = map Inr (map combo [a..b])"
  by (simp add: getCombo_combo)

lemma getCombo_inj:
  assumes "0 \<le> i" "i < 17043520" "0 \<le> j" "j < 17043520" "i \<noteq> j"
  shows "getCombo (initTotals globals0) i \<noteq> getCombo (initTotals globals0) j"
proof
  assume "getCombo (initTotals globals0) i = getCombo (initTotals globals0) j"
  with assms(1-4) have "combo i = combo j"
    by (simp add: getCombo_combo)
  then have "index_of_combo (combo i) = index_of_combo (combo j)" by simp
  with assms show False
    by (simp add: index_of_combo_combo)
qed

text \<open>
  C10 (amended). For every persisted value \<open>v\<close> with \<open>0 <= v\<close> and \<open>v + 1 < total\<close> such that
  \<open>v + 1\<close> is no multiple of \<open>entriesPerFile\<close> (and no failing file operation), the first
  pass of the resumed run creates the file numbered \<open>(v + 1) / entriesPerFile + 1\<close> anew
  and fills it with the lines for \<open>min(entriesPerFile, total - (v + 1))\<close> indices from
  \<open>v + 1\<close> on: its first line is \<open>getCombo(v + 1)\<close>, which differs from the string of the
  file's nominal first index \<open>(fileNum - 1) * entriesPerFile\<close>.
\<close>

theorem resume_unaligned:
  assumes st: "files w stateFile = Some data" "ParseInt (TrimSpace data) = (v, None)"
    and v: "0 \<le> v" "v + 1 < total_n (initTotals globals0)" "\<not> entriesPerFile dvd (v + 1)"
    and io: "\<not> createErr w (fileName (go_div (v + 1) entriesPerFile + 1))"
      "\<not> writeErr w (fileName (go_div (v + 1) entriesPerFile + 1))"
  shows "\<exists>s1 content.
     currentPos (main_start w) = v + 1 \<and>
     one_file (initTotals globals0) (main_start w) = Some (Inr s1) \<and>
     all_files (initTotals globals0) (main_start w) = all_files (initTotals globals0) s1 \<and>
     created (trace (world s1)) =
       created (trace w) @ [fileName (go_div (v + 1) entriesPerFile + 1)] \<and>
     files (world s1) (fileName (go_div (v + 1) entriesPerFile + 1)) = Some content \<and>
     map Inr (lines_of content) =
       map (getCombo (initTotals globals0))
         [v + 1..v + min entriesPerFile (total_n (initTotals globals0) - (v + 1))] \<and>
     length (lines_of content) =
       nat (min entriesPerFile (total_n (initTotals globals0) - (v + 1))) \<and>
     Inr (hd (lines_of content)) = getCombo (initTotals globals0) (v + 1) \<and>
     getCombo (initTotals globals0) (v + 1) \<noteq>
       getCombo (initTotals globals0) (go_div (v + 1) entriesPerFile * entriesPerFile)"
proof -
  have tot: "total_n (initTotals globals0) = 17043520"
    by (simp add: initTotals_eq)
  from v have c: "0 \<le> v + 1" "v + 1 < 17043520"
    by (simp_all add: tot)
  have gd: "go_div (v + 1) entriesPerFile = (v + 1) div 2000000"
    using c(1) by (rule go_div_entriesPerFile)
  from st c have r: "resume w = v + 1"
    by (simp add: resume_def wrap64_def)
  let ?s0 = "main_start w"
  let ?name = "fileName ((v + 1) div 2000000 + 1)"
  let ?e = "v + 1 + min 2000000 (17043520 - (v + 1))"
  have s0: "world ?s0 = w" "currentPos ?s0 = v + 1"
    by (simp_all add: main_start_eq r)
  from c io have pre: "0 \<le> currentPos ?s0" "currentPos ?s0 < 17043520"
    "\<not> createErr (world ?s0) (fileName (currentPos ?s0 div 2000000 + 1))"
    by (simp_all add: s0 gd)
  from one_file_ok [OF pre] obtain s1 where
    o: "one_file (initTotals globals0) ?s0 = Some (Inr s1)"
    by blast
  from io(2) have w': "\<not> writeErr (world ?s0) (fileName (currentPos ?s0 div 2000000 + 1))"
    by (simp add: s0 gd)
  note oc = one_file_content [OF o pre(1, 2) w', unfolded s0]
  have a: "all_files (initTotals globals0) ?s0 = all_files (initTotals globals0) s1"
    using o pre(2) by (subst all_files.simps) (simp add: tot)
  from one_file_Inr(2) [OF o] obtain fl wr where
    "trace (world s1) = trace (world ?s0) @
           [Create (fileName (go_div (currentPos ?s0) entriesPerFile + 1)),
            Flush (fileName (go_div (currentPos ?s0) entriesPerFile + 1)) fl,
            Close (fileName (go_div (currentPos ?s0) entriesPerFile + 1)),
            WriteFile stateFile (FormatInt (currentPos s1 - 1)) wr] @
           checkpoint_events (filesCompleted s1)"
    by blast
  then have tr: "created (trace (world s1)) = created (trace w) @ [?name]"
    by (simp add: s0 gd created_append created_checkpoint_events)
  have ln: "lines_of (entries (v + 1) (currentPos s1)) = map combo [v + 1..currentPos s1 - 1]"
    unfolding lines_of_def using c(1) oc(2) by (rule lines_of_entries)
  have e: "currentPos s1 - 1 = v + min 2000000 (17043520 - (v + 1))"
    using oc(3) by simp
  have m: "map Inr (lines_of (entries (v + 1) (currentPos s1))) =
       map (getCombo (initTotals globals0)) [v + 1..v + min 2000000 (17043520 - (v + 1))]"
    unfolding ln e using c by (intro getCombo_map_range [symmetric]) simp_all
  have len: "length (lines_of (entries (v + 1) (currentPos s1))) =
       nat (min 2000000 (17043520 - (v + 1)))"
    unfolding ln using e by simp
  have hd: "Inr (hd (lines_of (entries (v + 1) (currentPos s1)))) =
       getCombo (initTotals globals0) (v + 1)"
    unfolding ln using oc(1) c
    by (simp add: upto_rec1 [of "v + 1" "currentPos s1 - 1"] getCombo_combo)
  have nom: "0 \<le> (v + 1) div 2000000 * 2000000" "(v + 1) div 2000000 * 2000000 < 17043520"
    using c by simp_all
  have nom': "v + 1 \<noteq> (v + 1) div 2000000 * 2000000"
  proof
    assume "v + 1 = (v + 1) div 2000000 * 2000000"
    then have "2000000 dvd (v + 1)" by (metis dvd_triv_right)
    with v(3) show False by (simp add: entriesPerFile_def)
  qed
  have ne: "getCombo (initTotals globals0) (v + 1) \<noteq>
       getCombo (initTotals globals0) ((v + 1) div 2000000 * 2000000)"
    using c nom nom' by (intro getCombo_inj) simp_all
  from s0(2) o a tr oc(4) m len hd ne show ?thesis
    unfolding gd tot unfolding entriesPerFile_def by blast
qed

theorem resume_unaligned_witness:
  "\<exists>s1 content.
     currentPos (main_start \<lparr>files = [stateFile \<mapsto> ''17043517''], createErr = (\<lambda>f. False),
         writeErr = (\<lambda>f. False), trace = []\<rparr>) = 17043517 + 1 \<and>
     one_file (initTotals globals0)
       (main_start \<lparr>files = [stateFile \<mapsto> ''17043517''], createErr = (\<lambda>f. False),
         writeErr = (\<lambda>f. False), trace = []\<rparr>) = Some (Inr s1) \<and>
     files (world s1) (fileName (go_div (17043517 + 1) entriesPerFile + 1)) = Some content \<and>
     Inr (hd (lines_of content)) = getCombo (initTotals globals0) (17043517 + 1)"
proof -
  let ?w = "\<lparr>files = [stateFile \<mapsto> ''17043517''], createErr = (\<lambda>f. False),
         writeErr = (\<lambda>f. False), trace = []\<rparr>"
  have h: "files ?w stateFile = Some ''17043517''"
    "ParseInt (TrimSpace ''17043517'') = (17043517, None)"
    "(0::int) \<le> 17043517" "17043517 + 1 < total_n (initTotals globals0)"
    "\<not> entriesPerFile dvd (17043517 + 1)"
    "\<not> createErr ?w (fileName (go_div (17043517 + 1) entriesPerFile + 1))"
    "\<not> writeErr ?w (fileName (go_div (17043517 + 1) entriesPerFile + 1))"
    by (simp_all add: ParseInt_examples initTotals_eq entriesPerFile_def)
  from resume_unaligned [OF h] show ?thesis by blast
qed

lemma one_file_last:
  "\<exists>s'. one_file (initTotals globals0)
          \<lparr>world = \<lparr>files = [stateFile \<mapsto> ''17043518''], createErr = (\<lambda>f. False),
                     writeErr = (\<lambda>f. False), trace = []\<rparr>,
           currentPos = 17043519, filesCompleted = 8\<rparr> = Some (Inr s') \<and>
        currentPos s' = 17043520 \<and> filesCompleted s' = 9"
  by (simp add: one_file_ok)

lemma main_last:
  "\<exists>t. main \<lparr>files = [stateFile \<mapsto> ''17043518''], createErr = (\<lambda>f. False),
              writeErr = (\<lambda>f. False), trace = []\<rparr> = Some (Inr t) \<and>
       currentPos t = 17043520 \<and> filesCompleted t = 9"
  by (simp add: main_last_file)

theorem checkpoint_every_commitEvery_witness:
  "\<exists>s' t (s :: mstate).
     one_file (initTotals globals0)
       \<lparr>world = \<lparr>files = [stateFile \<mapsto> ''17043518''], createErr = (\<lambda>f. False),
                  writeErr = (\<lambda>f. False), trace = []\<rparr>,
        currentPos = 17043519, filesCompleted = 8\<rparr> = Some (Inr s') \<and>
     filesCompleted s' = 8 + 1 \<and>
     main \<lparr>files = [stateFile \<mapsto> ''17043518''], createErr = (\<lambda>f. False),
           writeErr = (\<lambda>f. False), trace = []\<rparr> = Some (Inr t) \<and>
     filesCompleted t = filesCompleted s \<and>
     trace (world t) = trace (world s) @
       (if commitEvery dvd filesCompleted s then [] else [GitCommitAndPush (filesCompleted s)])"
proof -
  let ?w = "\<lparr>files = [stateFile \<mapsto> ''17043518''], createErr = (\<lambda>f. False),
              writeErr = (\<lambda>f. False), trace = []\<rparr>"
  let ?s = "\<lparr>world = ?w, currentPos = 17043519, filesCompleted = 8\<rparr>"
  from one_file_last obtain s' where
    o: "one_file (initTotals globals0) ?s = Some (Inr s')"
    by blast
  from main_last obtain t where m: "main ?w = Some (Inr t)"
    by blast
  note th = checkpoint_every_commitEvery [of ?w "initTotals globals0" ?s s' t]
  note c3 = th [THEN conjunct2, THEN conjunct2, THEN conjunct1, THEN mp, OF o]
  note c4 = th [THEN conjunct2, THEN conjunct2, THEN conjunct2, THEN mp, OF m]
  from c3 have a: "filesCompleted s' = 8 + 1"
    by simp
  from c4 obtain s :: mstate where
    b: "filesCompleted t = filesCompleted s"
      "trace (world t) = trace (world s) @
           (if commitEvery dvd filesCompleted s then []
            else [GitCommitAndPush (filesCompleted s)])"
    by blast
  from o a m b show ?thesis
    by (intro exI conjI)
qed

text \<open>
  C2. The code at a state file that is present and holds \<open>abc\<close>, which \<open>ParseInt\<close>
  rejects: the run starts at index 1, and its first file begins with the line \<open>b\<close>. A run
  without a state file starts at index 0, and its first file begins with the line \<open>a\<close>.
\<close>

theorem resume_unparseable:
  "ParseInt (TrimSpace ''abc'') = (0, Some ErrSyntax) \<and>
   main_start \<lparr>files = [stateFile \<mapsto> ''abc''], createErr = (\<lambda>f. False),
               writeErr = (\<lambda>f. False), trace = []\<rparr> =
     \<lparr>world = \<lparr>files = [stateFile \<mapsto> ''abc''], createErr = (\<lambda>f. False),
                writeErr = (\<lambda>f. False), trace = []\<rparr>,
      currentPos = 1, filesCompleted = 0\<rparr> \<and>
   main_start \<lparr>files = Map.empty, createErr = (\<lambda>f. False), writeErr = (\<lambda>f. False),
               trace = []\<rparr> =
     \<lparr>world = \<lparr>files = Map.empty, createErr = (\<lambda>f. False), writeErr = (\<lambda>f. False),
                trace = []\<rparr>,
      currentPos = 0, filesCompleted = 0\<rparr> \<and>
   (\<exists>s1. one_file (initTotals globals0)
           (main_start \<lparr>files = [stateFile \<mapsto> ''abc''], createErr = (\<lambda>f. False),
                        writeErr = (\<lambda>f. False), trace = []\<rparr>) = Some (Inr s1) \<and>
         files (world s1) (fileName 1) = Some (entries 1 2000001)) \<and>
   (\<exists>s1. one_file (initTotals globals0)
           (main_start \<lparr>files = Map.empty, createErr = (\<lambda>f. False),
                        writeErr = (\<lambda>f. False), trace = []\<rparr>) = Some (Inr s1) \<and>
         files (world s1) (fileName 1) = Some (entries 0 2000000)) \<and>
   take 2 (entries 1 2000001) = ''b'' @ [CHR 0x0A] \<and>
   take 2 (entries 0 2000000) = ''a'' @ [CHR 0x0A]"
proof -
  let ?a = "\<lparr>files = [stateFile \<mapsto> ''abc''], createErr = (\<lambda>f. False),
              writeErr = (\<lambda>f. False), trace = []\<rparr>"
  let ?n = "\<lparr>files = Map.empty, createErr = (\<lambda>f. False), writeErr = (\<lambda>f. False),
              trace = []\<rparr>"
  have ra: "resume ?a = 1"
    by (simp add: resume_def ParseInt_examples wrap64_def)
  have rn: "resume ?n = 0"
    by (simp add: resume_def)
  have sa: "main_start ?a = \<lparr>world = ?a, currentPos = 1, filesCompleted = 0\<rparr>"
    by (simp add: main_start_eq ra go_div_def entriesPerFile_def)
  have sn: "main_start ?n = \<lparr>world = ?n, currentPos = 0, filesCompleted = 0\<rparr>"
    by (simp add: main_start_eq rn go_div_def)
  have oa: "\<exists>s1. one_file (initTotals globals0) (main_start ?a) = Some (Inr s1) \<and>
         files (world s1) (fileName 1) = Some (entries 1 2000001)"
    unfolding sa by (simp add: one_file_ok file_done_files fileName_neq_stateFile)
  have on: "\<exists>s1. one_file (initTotals globals0) (main_start ?n) = Some (Inr s1) \<and>
         files (world s1) (fileName 1) = Some (entries 0 2000000)"
    unfolding sn by (simp add: one_file_ok file_done_files fileName_neq_stateFile)
  have ta: "take 2 (entries 1 2000001) = ''b'' @ [CHR 0x0A]"
    by (simp add: entries_step [of 1 2000001] combo_examples)
  have tn: "take 2 (entries 0 2000000) = ''a'' @ [CHR 0x0A]"
    by (simp add: entries_step [of 0 2000000] combo_examples)
  from ParseInt_examples(4) sa sn oa on ta tn show ?thesis
    by blast
qed

end
